theory Spec2Isabelle
  imports Main
begin

section \<open>Syntax trees with parent links\<close>

text \<open>
  A parse tree is a rose tree of labelled nodes. The label carries what the queries of
  \<^verbatim>\<open>TreeUtils\<close> read from a \<^verbatim>\<open>SyntaxNode\<close>: its \<^verbatim>\<open>type\<close> tag, whether it is a named
  node, the field name under which its parent holds it, its \<^verbatim>\<open>text\<close> and its span.
  A point is a pair (row, column).
\<close>

type_synonym Point = "nat \<times> nat"

datatype Label =
  Label (ntype: string) (isNamed: bool) (fieldTag: "string option")
        (ntext: string) (startPosition: Point) (endPosition: Point)

datatype Syntax = Syntax (label: Label) (subtrees: "Syntax list")

text \<open>
  A \<^verbatim>\<open>SyntaxNode\<close> knows its parent and its siblings. It is a position in a tree: the
  subtree in focus and, for every ancestor, that ancestor's label with the siblings to
  the left (nearest first) and to the right. \<open>treeUri\<close> is \<^verbatim>\<open>node.tree.uri\<close>.
\<close>

datatype Crumb = Crumb (parentLabel: Label) (lefts: "Syntax list") (rights: "Syntax list")

datatype SyntaxNode = SyntaxNode (focus: Syntax) (crumbs: "Crumb list") (treeUri: string)

datatype Tree = Tree (rootNode: SyntaxNode)

definition type_of :: "SyntaxNode \<Rightarrow> string" where
  "type_of n = ntype (label (focus n))"

definition text_of :: "SyntaxNode \<Rightarrow> string" where
  "text_of n = ntext (label (focus n))"

definition named :: "SyntaxNode \<Rightarrow> bool" where
  "named n = isNamed (label (focus n))"

definition startPoint :: "SyntaxNode \<Rightarrow> Point" where
  "startPoint n = startPosition (label (focus n))"

definition endPoint :: "SyntaxNode \<Rightarrow> Point" where
  "endPoint n = endPosition (label (focus n))"

fun zipChildren ::
  "Label \<Rightarrow> Crumb list \<Rightarrow> string \<Rightarrow> Syntax list \<Rightarrow> Syntax list \<Rightarrow> SyntaxNode list" where
  "zipChildren l cs u ls [] = []"
| "zipChildren l cs u ls (t # rs) =
     SyntaxNode t (Crumb l ls rs # cs) u # zipChildren l cs u (t # ls) rs"

fun zipLefts ::
  "Label \<Rightarrow> Crumb list \<Rightarrow> string \<Rightarrow> Syntax list \<Rightarrow> Syntax list \<Rightarrow> SyntaxNode list" where
  "zipLefts l cs u [] rs = []"
| "zipLefts l cs u (a # ls) rs =
     SyntaxNode a (Crumb l ls rs # cs) u # zipLefts l cs u ls (a # rs)"

text \<open>\<^verbatim>\<open>node.children\<close>, in document order.\<close>

definition children :: "SyntaxNode \<Rightarrow> SyntaxNode list" where
  "children n =
     zipChildren (label (focus n)) (crumbs n) (treeUri n) [] (subtrees (focus n))"

definition namedChildren :: "SyntaxNode \<Rightarrow> SyntaxNode list" where
  "namedChildren n = filter named (children n)"

definition firstChild :: "SyntaxNode \<Rightarrow> SyntaxNode option" where
  "firstChild n = (case children n of [] \<Rightarrow> None | c # _ \<Rightarrow> Some c)"

definition firstNamedChild :: "SyntaxNode \<Rightarrow> SyntaxNode option" where
  "firstNamedChild n = (case namedChildren n of [] \<Rightarrow> None | c # _ \<Rightarrow> Some c)"

definition lastNamedChild :: "SyntaxNode \<Rightarrow> SyntaxNode option" where
  "lastNamedChild n = (case namedChildren n of [] \<Rightarrow> None | c # cs \<Rightarrow> Some (last (c # cs)))"

fun parent :: "SyntaxNode \<Rightarrow> SyntaxNode option" where
  "parent (SyntaxNode t [] u) = None"
| "parent (SyntaxNode t (Crumb l ls rs # cs) u) =
     Some (SyntaxNode (Syntax l (rev ls @ t # rs)) cs u)"

text \<open>The siblings after a node in document order, and those before it, nearest first.\<close>

fun nextSiblings :: "SyntaxNode \<Rightarrow> SyntaxNode list" where
  "nextSiblings (SyntaxNode t [] u) = []"
| "nextSiblings (SyntaxNode t (Crumb l ls rs # cs) u) = zipChildren l cs u (t # ls) rs"

fun previousSiblings :: "SyntaxNode \<Rightarrow> SyntaxNode list" where
  "previousSiblings (SyntaxNode t [] u) = []"
| "previousSiblings (SyntaxNode t (Crumb l ls rs # cs) u) = zipLefts l cs u ls (t # rs)"

definition nextNamedSibling :: "SyntaxNode \<Rightarrow> SyntaxNode option" where
  "nextNamedSibling n = find named (nextSiblings n)"

definition previousNamedSibling :: "SyntaxNode \<Rightarrow> SyntaxNode option" where
  "previousNamedSibling n = find named (previousSiblings n)"

definition childForFieldName :: "SyntaxNode \<Rightarrow> string \<Rightarrow> SyntaxNode option" where
  "childForFieldName n f = find (\<lambda>c. fieldTag (label (focus c)) = Some f) (children n)"

lemma zipChildren_focus:
  "c \<in> set (zipChildren l cs u ls rs) \<Longrightarrow> focus c \<in> set rs"
  by (induction rs arbitrary: ls) auto

lemma subtree_smaller: "t \<in> set ts \<Longrightarrow> size t < Suc (size_list size ts)"
  by (induction ts) auto

lemma children_smaller: "c \<in> set (children n) \<Longrightarrow> size (focus c) < size (focus n)"
proof -
  assume "c \<in> set (children n)"
  then have "focus c \<in> set (subtrees (focus n))"
    unfolding children_def by (rule zipChildren_focus)
  then show ?thesis
    by (cases "focus n") (simp add: subtree_smaller)
qed

text \<open>
  The node and everything below it, in pre-order: the order in which the parser
  library's \<^verbatim>\<open>descendantsOfType\<close> walks a node.
\<close>

function descendants :: "SyntaxNode \<Rightarrow> SyntaxNode list" where
  "descendants n = n # concat (map descendants (children n))"
  by pat_completeness auto
termination
  by (relation "measure (\<lambda>n. size (focus n))") (auto simp: children_smaller)

declare descendants.simps [simp del]

section \<open>TreeUtils: module structure\<close>

definition descendantsOfType :: "SyntaxNode \<Rightarrow> string \<Rightarrow> SyntaxNode list" where
  "descendantsOfType node ty = filter (\<lambda>d. type_of d = ty) (descendants node)"

definition findFirstNamedChildOfType :: "string \<Rightarrow> SyntaxNode \<Rightarrow> SyntaxNode option" where
  "findFirstNamedChildOfType ty node = find (\<lambda>child. type_of child = ty) (children node)"

text \<open>
  \<^verbatim>\<open>findAllNamedChildrenOfType\<close> with a list of types, as its callers here use it; an
  empty result is \<^verbatim>\<open>undefined\<close>.
\<close>

definition findAllNamedChildrenOfType ::
  "string list \<Rightarrow> SyntaxNode \<Rightarrow> SyntaxNode list option" where
  "findAllNamedChildrenOfType tys node =
     (let result = filter (\<lambda>child. type_of child \<in> set tys) (children node)
      in if result = [] then None else Some result)"

definition findModuleDeclaration :: "Tree \<Rightarrow> SyntaxNode option" where
  "findModuleDeclaration tree = childForFieldName (rootNode tree) ''moduleDeclaration''"

text \<open>
  The test shared by the four exposing queries: the node's first \<^verbatim>\<open>exposing_list\<close> child
  has a \<^verbatim>\<open>double_dot\<close> child.
\<close>

definition hasDoubleDot :: "SyntaxNode \<Rightarrow> bool" where
  "hasDoubleDot node =
     (case findFirstNamedChildOfType ''exposing_list'' node of
        None \<Rightarrow> False
      | Some exposingList \<Rightarrow>
          (case findFirstNamedChildOfType ''double_dot'' exposingList of
             None \<Rightarrow> False
           | Some doubleDot \<Rightarrow> True))"

definition startsWith :: "string \<Rightarrow> string \<Rightarrow> bool" where
  "startsWith s p = (take (length p) s = p)"

definition findExposedFunctionNode :: "SyntaxNode option \<Rightarrow> string \<Rightarrow> SyntaxNode option" where
  "findExposedFunctionNode node functionName =
     (case node of
        None \<Rightarrow> None
      | Some n \<Rightarrow>
          if hasDoubleDot n then None
          else find (\<lambda>desc. text_of desc = functionName) (descendantsOfType n ''exposed_value''))"

definition isExposedFunction :: "Tree \<Rightarrow> string \<Rightarrow> bool" where
  "isExposedFunction tree functionName =
     (case findModuleDeclaration tree of
        None \<Rightarrow> False
      | Some m \<Rightarrow>
          if hasDoubleDot m then True
          else list_ex (\<lambda>desc. text_of desc = functionName) (descendantsOfType m ''exposed_value''))"

definition findExposedTypeOrTypeAliasNode ::
  "SyntaxNode option \<Rightarrow> string \<Rightarrow> SyntaxNode option" where
  "findExposedTypeOrTypeAliasNode node typeName =
     (case node of
        None \<Rightarrow> None
      | Some n \<Rightarrow>
          if hasDoubleDot n then None
          else (case find (\<lambda>desc. startsWith (text_of desc) typeName)
                       (descendantsOfType n ''exposed_type'') of
                  None \<Rightarrow> None
                | Some match \<Rightarrow> firstNamedChild match))"

definition isExposedTypeOrTypeAlias :: "Tree \<Rightarrow> string \<Rightarrow> bool" where
  "isExposedTypeOrTypeAlias tree typeName =
     (case findModuleDeclaration tree of
        None \<Rightarrow> False
      | Some m \<Rightarrow>
          if hasDoubleDot m then True
          else list_ex (\<lambda>desc. startsWith (text_of desc) typeName)
                 (descendantsOfType m ''exposed_type''))"

section \<open>TreeUtils: position-to-node mapping\<close>

text \<open>
  The faults a query can raise. \<^verbatim>\<open>TypeError\<close> is what reading a property of
  \<^verbatim>\<open>undefined\<close> raises.
\<close>

datatype error = TypeError | IOError

record Position =
  line :: nat
  character :: nat

text \<open>\<^verbatim>\<open>s.split("\n")\<close>: the pieces between line feeds; never the empty list.\<close>

fun splitLines :: "string \<Rightarrow> string list" where
  "splitLines [] = [[]]"
| "splitLines (c # cs) =
     (if c = CHR 0x0A then [] # splitLines cs
      else (case splitLines cs of [] \<Rightarrow> [[c]] | l # ls \<Rightarrow> (c # l) # ls))"

text \<open>\<^verbatim>\<open>s.substring(a, b)\<close> on indices that are not negative.\<close>

definition substring :: "string \<Rightarrow> nat \<Rightarrow> nat \<Rightarrow> string" where
  "substring s a b = take (max a b - min a b) (drop (min a b) s)"

definition isIdentChar :: "char \<Rightarrow> bool" where
  "isIdentChar c =
     (let k = (of_char c :: nat)
      in (97 \<le> k \<and> k \<le> 122) \<or> (65 \<le> k \<and> k \<le> 90) \<or> (48 \<le> k \<and> k \<le> 57) \<or> k = 95)"

text \<open>
  \<^verbatim>\<open>functionNameRegex.test(s)\<close> for the unanchored pattern \<^verbatim>\<open>[a-zA-Z0-9_]+\<close>: some
  character of \<open>s\<close> is in the class.
\<close>

definition functionNameRegex_test :: "string \<Rightarrow> bool" where
  "functionNameRegex_test s = list_ex isIdentChar s"

definition point_lt :: "Point \<Rightarrow> Point \<Rightarrow> bool" where
  "point_lt a b = (fst a < fst b \<or> (fst a = fst b \<and> snd a < snd b))"

definition point_lte :: "Point \<Rightarrow> Point \<Rightarrow> bool" where
  "point_lte a b = (fst a < fst b \<or> (fst a = fst b \<and> snd a \<le> snd b))"

lemma find_in_children_smaller:
  "find P (children n) = Some c \<Longrightarrow> size (focus c) < size (focus n)"
  by (auto simp: find_Some_iff intro: children_smaller)

text \<open>
  The parser library's \<^verbatim>\<open>namedDescendantForPosition(start, end)\<close>: from the node, keep
  stepping into the first child that ends at or after the end of the range and after
  its start, as long as that child starts at or before the start of the range; the
  answer is the last named node stepped into, or the node itself.
\<close>

function descendantForRange :: "Point \<Rightarrow> Point \<Rightarrow> SyntaxNode \<Rightarrow> SyntaxNode \<Rightarrow> SyntaxNode" where
  "descendantForRange rangeStart rangeEnd node lastVisible =
     (case find (\<lambda>c. \<not> point_lt (endPoint c) rangeEnd \<and> \<not> point_lte (endPoint c) rangeStart)
             (children node) of
        None \<Rightarrow> lastVisible
      | Some child \<Rightarrow>
          if point_lt rangeStart (startPoint child) then lastVisible
          else descendantForRange rangeStart rangeEnd child
                 (if named child then child else lastVisible))"
  by pat_completeness auto
termination
  by (relation "measure (\<lambda>(rs, re, n, l). size (focus n))")
     (auto simp: find_in_children_smaller)

declare descendantForRange.simps [simp del]

definition namedDescendantForPosition :: "SyntaxNode \<Rightarrow> Point \<Rightarrow> Point \<Rightarrow> SyntaxNode" where
  "namedDescendantForPosition node start end' = descendantForRange start end' node node"

definition getNamedDescendantForPosition :: "SyntaxNode \<Rightarrow> Position \<Rightarrow> error + SyntaxNode" where
  "getNamedDescendantForPosition node position =
     (let previousCharColumn = (if character position = 0 then 0 else character position - 1);
          lines = splitLines (text_of node)
      in if length lines \<le> line position then Inl TypeError
         else
           let charBeforeCursor =
                 substring (lines ! line position) previousCharColumn (character position)
           in if \<not> functionNameRegex_test charBeforeCursor
              then Inr (namedDescendantForPosition node
                          (line position, character position)
                          (line position, character position))
              else Inr (namedDescendantForPosition node
                          (line position, previousCharColumn)
                          (line position, character position)))"

definition getNamedDescendantForLineBeforePosition :: "SyntaxNode \<Rightarrow> Position \<Rightarrow> SyntaxNode" where
  "getNamedDescendantForLineBeforePosition node position =
     (let previousLine = (if line position = 0 then 0 else line position - 1)
      in namedDescendantForPosition node (previousLine, 0) (previousLine, 0))"

definition getNamedDescendantForLineAfterPosition :: "SyntaxNode \<Rightarrow> Position \<Rightarrow> SyntaxNode" where
  "getNamedDescendantForLineAfterPosition node position =
     (let followingLine = line position + 1
      in namedDescendantForPosition node (followingLine, 0) (followingLine, 0))"

section \<open>TreeUtils: field references of a record type\<close>

datatype NodeType =
  Function | FunctionParameter | TypeAlias | Type | Operator | Module | CasePattern
  | AnonymousFunctionParameter | UnionConstructor | FieldType | TypeVariable | Port

record DefinitionResult =
  dnode :: SyntaxNode
  duri :: string
  dnodeType :: NodeType

text \<open>
  Modelled from the spec: the type checker's \<^verbatim>\<open>Type\<close> and the table behind
  \<^verbatim>\<open>fieldReferences\<close> are not among the sources. A type is a \<^verbatim>\<open>Record\<close>, carrying
  \<^verbatim>\<open>fieldReferences: name -> ordered list of definition nodes\<close>, or a type of another
  shape, of which only the tag is kept. \<^verbatim>\<open>fieldReferences.get(name)\<close> is the list stored
  for the name, the empty list when the table has no entry for it.
\<close>

datatype Type = TRecord (fieldReferences: "(string \<times> SyntaxNode list) list") | TOther string

definition fieldReferences_get :: "(string \<times> SyntaxNode list) list \<Rightarrow> string \<Rightarrow> SyntaxNode list" where
  "fieldReferences_get table field = (case map_of table field of None \<Rightarrow> [] | Some refs \<Rightarrow> refs)"

definition findFieldReference :: "Type \<Rightarrow> string \<Rightarrow> DefinitionResult option" where
  "findFieldReference ty fieldName =
     (case ty of
        TOther tag \<Rightarrow> None
      | TRecord table \<Rightarrow>
          (case fieldReferences_get table fieldName of
             [] \<Rightarrow> None
           | ref # refs \<Rightarrow>
               let refUri = treeUri ref
               in if refUri \<noteq> [] then Some \<lparr>dnode = ref, duri = refUri, dnodeType = FieldType\<rparr>
                  else None))"

section \<open>TreeUtils: the type of a function parameter\<close>

text \<open>\<^verbatim>\<open>xs.findIndex(p)\<close>: the index of the first element satisfying \<open>p\<close>, or \<open>-1\<close>.\<close>

fun findIndex :: "('a \<Rightarrow> bool) \<Rightarrow> 'a list \<Rightarrow> int" where
  "findIndex p [] = -1"
| "findIndex p (x # xs) =
     (if p x then 0 else (let i = findIndex p xs in if i < 0 then -1 else i + 1))"

text \<open>\<^verbatim>\<open>xs[i]\<close>: \<^verbatim>\<open>undefined\<close> outside the array, never a fault.\<close>

definition arrayGet :: "'a list \<Rightarrow> int \<Rightarrow> 'a option" where
  "arrayGet xs i = (if 0 \<le> i \<and> i < int (length xs) then Some (xs ! nat i) else None)"

definition getTypeOrTypeAliasOfFunctionParameter :: "SyntaxNode option \<Rightarrow> SyntaxNode option" where
  "getTypeOrTypeAliasOfFunctionParameter node =
     (case node of None \<Rightarrow> None | Some n \<Rightarrow>
      (case parent n of None \<Rightarrow> None | Some p \<Rightarrow>
      (case parent p of None \<Rightarrow> None | Some pp \<Rightarrow>
      (case parent pp of None \<Rightarrow> None | Some ppp \<Rightarrow>
      (case previousNamedSibling ppp of None \<Rightarrow> None | Some annotation \<Rightarrow>
         if type_of annotation \<noteq> ''type_annotation'' then None
         else
      (case lastNamedChild annotation of None \<Rightarrow> None | Some annotated \<Rightarrow>
      (case findAllNamedChildrenOfType [''pattern'', ''lower_pattern''] pp of
         None \<Rightarrow> None
       | Some functionParameterNodes \<Rightarrow>
           let matchIndex = findIndex (\<lambda>a. text_of a = text_of n) functionParameterNodes
           in (case findAllNamedChildrenOfType [''type_ref'', ''type_expression''] annotated of
                 None \<Rightarrow> None
               | Some typeAnnotationNodes \<Rightarrow> arrayGet typeAnnotationNodes matchIndex))))))))"

section \<open>TreeUtils: successor traversal\<close>

lemma parent_depth: "parent n = Some p \<Longrightarrow> length (crumbs p) < length (crumbs n)"
  by (induction n rule: parent.induct) auto

lemma firstNamedChild_smaller: "firstNamedChild n = Some c \<Longrightarrow> size (focus c) < size (focus n)"
proof -
  assume "firstNamedChild n = Some c"
  then have "c \<in> set (namedChildren n)"
    by (auto simp: firstNamedChild_def split: list.splits)
  then show ?thesis
    by (simp add: namedChildren_def children_smaller)
qed

text \<open>Move up until we have a sibling.\<close>

function moveUp :: "SyntaxNode \<Rightarrow> SyntaxNode" where
  "moveUp node =
     (case nextNamedSibling node of
        Some s \<Rightarrow> node
      | None \<Rightarrow> (case parent node of None \<Rightarrow> node | Some p \<Rightarrow> moveUp p))"
  by pat_completeness auto
termination
  by (relation "measure (\<lambda>n. length (crumbs n))") (auto simp: parent_depth)

declare moveUp.simps [simp del]

text \<open>Move down the leftmost subtree.\<close>

function moveDown :: "SyntaxNode \<Rightarrow> SyntaxNode" where
  "moveDown node = (case firstNamedChild node of None \<Rightarrow> node | Some c \<Rightarrow> moveDown c)"
  by pat_completeness auto
termination
  by (relation "measure (\<lambda>n. size (focus n))") (auto simp: firstNamedChild_smaller)

declare moveDown.simps [simp del]

definition nextNode :: "SyntaxNode \<Rightarrow> SyntaxNode option" where
  "nextNode node =
     (case nextNamedSibling (moveUp node) of
        None \<Rightarrow> None
      | Some sibling \<Rightarrow> Some (moveDown sibling))"

text \<open>
  Repeated application of \<open>nextNode\<close>: the nodes met from a start node on, the start
  included, while steps remain; \<open>None\<close> when the steps run out before \<open>nextNode\<close> yields
  no further node.
\<close>

fun successors :: "nat \<Rightarrow> SyntaxNode \<Rightarrow> SyntaxNode list option" where
  "successors 0 node = None"
| "successors (Suc k) node =
     (case nextNode node of
        None \<Rightarrow> Some [node]
      | Some next \<Rightarrow> map_option ((#) node) (successors k next))"

text \<open>
  The leaves that the named links reach, in document order: a node without named
  children is such a leaf, any other node contributes those of its named children.
\<close>

lemma namedChildren_smaller:
  "c \<in> set (namedChildren n) \<Longrightarrow> size (focus c) < size (focus n)"
  by (simp add: namedChildren_def children_smaller)

function namedLeaves :: "SyntaxNode \<Rightarrow> SyntaxNode list" where
  "namedLeaves n =
     (if namedChildren n = [] then [n] else concat (map namedLeaves (namedChildren n)))"
  by pat_completeness auto
termination
  by (relation "measure (\<lambda>n. size (focus n))") (auto simp: namedChildren_smaller)

declare namedLeaves.simps [simp del]

text \<open>All leaves, named or not, in document order.\<close>

function leaves :: "SyntaxNode \<Rightarrow> SyntaxNode list" where
  "leaves n = (if children n = [] then [n] else concat (map leaves (children n)))"
  by pat_completeness auto
termination
  by (relation "measure (\<lambda>n. size (focus n))") (auto simp: children_smaller)

declare leaves.simps [simp del]

section \<open>TreeUtils: record and type-alias resolution\<close>

text \<open>
  Modelled from the spec: the forest and its containers are not among the sources. A
  container owns one tree with the file identity and the flags \<^verbatim>\<open>setTree\<close> is given;
  the forest maps a file identity to at most one container; \<^verbatim>\<open>getByUri\<close> and
  \<^verbatim>\<open>getTree\<close> look an identity up, \<^verbatim>\<open>setTree(fileId, isOpen, isWriteable, tree)\<close>
  replaces the whole entry of the identity.
\<close>

record ITreeContainer =
  c_uri :: string
  c_isOpen :: bool
  c_writeable :: bool
  c_tree :: Tree

type_synonym Forest = "string \<rightharpoonup> ITreeContainer"

definition getByUri :: "Forest \<Rightarrow> string \<Rightarrow> ITreeContainer option" where
  "getByUri forest u = forest u"

definition getTree :: "Forest \<Rightarrow> string \<Rightarrow> Tree option" where
  "getTree forest u = map_option c_tree (forest u)"

definition setTree :: "Forest \<Rightarrow> string \<Rightarrow> bool \<Rightarrow> bool \<Rightarrow> Tree \<Rightarrow> Forest" where
  "setTree forest u isOpen isWriteable t =
     forest(u \<mapsto> \<lparr>c_uri = u, c_isOpen = isOpen, c_writeable = isWriteable, c_tree = t\<rparr>)"

text \<open>
  The type checker's \<^verbatim>\<open>findDefinition(node, treeContainer)\<close> is an external collaborator;
  the resolution chains take it as a parameter.
\<close>

type_synonym Checker = "SyntaxNode \<Rightarrow> ITreeContainer \<Rightarrow> DefinitionResult option"

definition getReturnTypeOrTypeAliasOfFunctionDefinition ::
  "SyntaxNode option \<Rightarrow> error + SyntaxNode option" where
  "getReturnTypeOrTypeAliasOfFunctionDefinition node =
     (case node of None \<Rightarrow> Inr None | Some n \<Rightarrow>
      (case previousNamedSibling n of None \<Rightarrow> Inr None | Some annotation \<Rightarrow>
         if type_of annotation \<noteq> ''type_annotation'' then Inr None
         else
           let typeAnnotationNodes = descendantsOfType annotation ''type_ref''
           in (case arrayGet typeAnnotationNodes (int (length typeAnnotationNodes) - 1) of
                 None \<Rightarrow> Inl TypeError
               | Some ty \<Rightarrow>
                   Inr (Some (case firstNamedChild ty of
                                None \<Rightarrow> ty
                              | Some c \<Rightarrow> (case firstNamedChild c of None \<Rightarrow> ty | Some cc \<Rightarrow> cc))))))"

text \<open>
  The closing block of \<^verbatim>\<open>getTypeAliasOfRecord\<close>: with an alias node and the tree of the
  definition, the first \<^verbatim>\<open>upper_case_identifier\<close> below the alias node is resolved by
  the checker.
\<close>

definition resolveAliasNode ::
  "Checker \<Rightarrow> SyntaxNode option \<Rightarrow> ITreeContainer option \<Rightarrow> (SyntaxNode \<times> string) option" where
  "resolveAliasNode findDefinition aliasNode definitionTree =
     (case aliasNode of None \<Rightarrow> None | Some a \<Rightarrow>
      (case definitionTree of None \<Rightarrow> None | Some dt \<Rightarrow>
      (case descendantsOfType a ''upper_case_identifier'' of
         [] \<Rightarrow> None
       | child # rest \<Rightarrow>
           (case findDefinition child dt of
              None \<Rightarrow> None
            | Some typeNode \<Rightarrow> Some (dnode typeNode, duri typeNode)))))"

definition getTypeAliasOfRecord ::
  "Checker \<Rightarrow> Forest \<Rightarrow> SyntaxNode option \<Rightarrow> ITreeContainer
     \<Rightarrow> error + (SyntaxNode \<times> string) option" where
  "getTypeAliasOfRecord findDefinition forest node treeContainer =
     (case node of None \<Rightarrow> Inr None | Some n \<Rightarrow>
      (case parent n of None \<Rightarrow> Inr None | Some p \<Rightarrow>
      (case parent p of None \<Rightarrow> Inr None | Some pp \<Rightarrow>
         let base =
               (case findFirstNamedChildOfType ''record_base_identifier'' pp of
                  Some b \<Rightarrow> Some b
                | None \<Rightarrow> findFirstNamedChildOfType ''record_base_identifier'' p)
         in (case (if base = None \<and> parent pp \<noteq> None
                   then (case getReturnTypeOrTypeAliasOfFunctionDefinition (parent pp) of
                           Inl e \<Rightarrow> Inl e
                         | Inr None \<Rightarrow> Inr None
                         | Inr (Some r) \<Rightarrow> Inr (parent r))
                   else Inr base) of
               Inl e \<Rightarrow> Inl e
             | Inr traced \<Rightarrow>
                 let ty = (case traced of None \<Rightarrow> n | Some t \<Rightarrow> t)
                 in (case findDefinition
                            (case firstNamedChild ty of Some c \<Rightarrow> c | None \<Rightarrow> ty)
                            treeContainer of
                       None \<Rightarrow> Inr None
                     | Some definitionNode \<Rightarrow>
                         let definitionTree = getByUri forest (duri definitionNode)
                         in if dnodeType definitionNode = FunctionParameter
                               \<and> firstNamedChild (dnode definitionNode) \<noteq> None
                            then Inr (resolveAliasNode findDefinition
                                        (getTypeOrTypeAliasOfFunctionParameter
                                           (firstNamedChild (dnode definitionNode)))
                                        definitionTree)
                            else if dnodeType definitionNode = Function
                            then (case getReturnTypeOrTypeAliasOfFunctionDefinition
                                         (Some (dnode definitionNode)) of
                                    Inl e \<Rightarrow> Inl e
                                  | Inr aliasNode \<Rightarrow>
                                      Inr (resolveAliasNode findDefinition aliasNode
                                             definitionTree))
                            else if dnodeType definitionNode = FieldType
                            then Inr (resolveAliasNode findDefinition
                                        (findFirstNamedChildOfType ''type_expression''
                                           (dnode definitionNode))
                                        definitionTree)
                            else if dnodeType definitionNode = TypeAlias
                            then Inr (Some (dnode definitionNode, duri definitionNode))
                            else Inr None)))))"

text \<open>
  What \<^verbatim>\<open>getTypeAliasOfRecordField\<close> does once its retry loop is over: the field named
  \<open>fieldName\<close> is looked up among the \<^verbatim>\<open>field_type\<close> nodes of the record type, and the
  first \<^verbatim>\<open>upper_case_identifier\<close> of its type expression is resolved by the checker.
\<close>

definition fieldTypeAlias ::
  "Checker \<Rightarrow> Forest \<Rightarrow> string option \<Rightarrow> (SyntaxNode \<times> string) option
     \<Rightarrow> (SyntaxNode \<times> string) option" where
  "fieldTypeAlias findDefinition forest fieldName recordType =
     (case recordType of None \<Rightarrow> None | Some rt \<Rightarrow>
      (case getByUri forest (snd rt) of None \<Rightarrow> None | Some recordTypeTree \<Rightarrow>
      (case find (\<lambda>a. map_option text_of (findFirstNamedChildOfType ''lower_case_identifier'' a)
                       = fieldName)
                 (descendantsOfType (fst rt) ''field_type'') of
         None \<Rightarrow> None
       | Some fieldNode \<Rightarrow>
           (case findFirstNamedChildOfType ''type_expression'' fieldNode of
              None \<Rightarrow> None
            | Some typeExpression \<Rightarrow>
                (case descendantsOfType typeExpression ''upper_case_identifier'' of
                   [] \<Rightarrow> None
                 | typeNode # rest \<Rightarrow>
                     (case findDefinition typeNode recordTypeTree of
                        None \<Rightarrow> None
                      | Some typeAliasNode \<Rightarrow>
                          Some (dnode typeAliasNode, duri typeAliasNode)))))))"

text \<open>\<^verbatim>\<open>node?.parent?.parent\<close>.\<close>

definition grandparent :: "SyntaxNode option \<Rightarrow> SyntaxNode option" where
  "grandparent node =
     (case node of None \<Rightarrow> None | Some n \<Rightarrow>
      (case parent n of None \<Rightarrow> None | Some p \<Rightarrow> parent p))"

definition depth :: "SyntaxNode option \<Rightarrow> nat" where
  "depth node = (case node of None \<Rightarrow> 0 | Some n \<Rightarrow> length (crumbs n))"

lemma grandparent_depth: "grandparent node = Some g \<Longrightarrow> depth (Some g) + 2 \<le> depth node"
  by (auto simp: grandparent_def depth_def split: option.splits dest!: parent_depth)

lemma grandparent_measure:
  "grandparent node = Some g \<Longrightarrow> Suc (2 * depth (Some g)) < 2 * depth node"
  "grandparent node = Some g \<Longrightarrow> depth (Some g) < depth node"
  using grandparent_depth [of node g] by simp_all

text \<open>
  \<open>getTypeAliasOfRecordField\<close> with its \<^verbatim>\<open>while\<close> loop. The loop carries the two variables
  it assigns, \<open>recordType\<close> and \<open>node\<close>; each round moves \<open>node\<close> to its parent's parent
  and calls \<open>getTypeAliasOfRecordField\<close> there. A fault raised in a call leaves the loop.
\<close>

function getTypeAliasOfRecordField ::
  "Checker \<Rightarrow> Forest \<Rightarrow> SyntaxNode option \<Rightarrow> ITreeContainer
     \<Rightarrow> error + (SyntaxNode \<times> string) option"
and retryLoop ::
  "Checker \<Rightarrow> Forest \<Rightarrow> ITreeContainer \<Rightarrow> (SyntaxNode \<times> string) option \<Rightarrow> SyntaxNode option
     \<Rightarrow> error + ((SyntaxNode \<times> string) option \<times> SyntaxNode option)" where
  "getTypeAliasOfRecordField findDefinition forest node treeContainer =
     (let fieldName =
            (case node of None \<Rightarrow> None | Some n \<Rightarrow>
             (case parent n of None \<Rightarrow> None | Some p \<Rightarrow>
                map_option text_of (firstNamedChild p)))
      in (case getTypeAliasOfRecord findDefinition forest node treeContainer of
            Inl e \<Rightarrow> Inl e
          | Inr recordType \<Rightarrow>
              (case retryLoop findDefinition forest treeContainer recordType node of
                 Inl e \<Rightarrow> Inl e
               | Inr final \<Rightarrow> Inr (fieldTypeAlias findDefinition forest fieldName (fst final)))))"
| "retryLoop findDefinition forest treeContainer recordType node =
     (if recordType = None \<and> grandparent node \<noteq> None
      then (case getTypeAliasOfRecordField findDefinition forest (grandparent node) treeContainer of
              Inl e \<Rightarrow> Inl e
            | Inr retried \<Rightarrow>
                retryLoop findDefinition forest treeContainer retried (grandparent node))
      else Inr (recordType, node))"
  by pat_completeness auto
termination
  by (relation "measure (\<lambda>x. case x of
          Inl (fd, forest, node, tc) \<Rightarrow> 2 * depth node + 1
        | Inr (fd, forest, tc, rt, node) \<Rightarrow> 2 * depth node)")
     (auto simp: grandparent_measure)

declare getTypeAliasOfRecordField.simps [simp del]
declare retryLoop.simps [simp del]

text \<open>
  The number of retries a call of \<open>getTypeAliasOfRecordField\<close> makes, by the same
  recursion: every round of the loop is one retry, to which come the retries of the
  call it makes and those of the rounds after it.
\<close>

function retries_getTypeAliasOfRecordField ::
  "Checker \<Rightarrow> Forest \<Rightarrow> SyntaxNode option \<Rightarrow> ITreeContainer \<Rightarrow> nat"
and retries_retryLoop ::
  "Checker \<Rightarrow> Forest \<Rightarrow> ITreeContainer \<Rightarrow> (SyntaxNode \<times> string) option \<Rightarrow> SyntaxNode option
     \<Rightarrow> nat" where
  "retries_getTypeAliasOfRecordField findDefinition forest node treeContainer =
     (case getTypeAliasOfRecord findDefinition forest node treeContainer of
        Inl e \<Rightarrow> 0
      | Inr recordType \<Rightarrow> retries_retryLoop findDefinition forest treeContainer recordType node)"
| "retries_retryLoop findDefinition forest treeContainer recordType node =
     (if recordType = None \<and> grandparent node \<noteq> None
      then 1 + retries_getTypeAliasOfRecordField findDefinition forest (grandparent node)
                 treeContainer
             + (case getTypeAliasOfRecordField findDefinition forest (grandparent node)
                       treeContainer of
                  Inl e \<Rightarrow> 0
                | Inr retried \<Rightarrow>
                    retries_retryLoop findDefinition forest treeContainer retried
                      (grandparent node))
      else 0)"
  by pat_completeness auto
termination
  by (relation "measure (\<lambda>x. case x of
          Inl (fd, forest, node, tc) \<Rightarrow> 2 * depth node + 1
        | Inr (fd, forest, tc, rt, node) \<Rightarrow> 2 * depth node)")
     (auto simp: grandparent_measure)

declare retries_getTypeAliasOfRecordField.simps [simp del]
declare retries_retryLoop.simps [simp del]

text \<open>The depth of a tree: the number of links from the root to a deepest node.\<close>

fun treeDepth :: "Syntax \<Rightarrow> nat" where
  "treeDepth (Syntax l ts) = fold max (map (\<lambda>t. Suc (treeDepth t)) ts) 0"

section \<open>The reparse handler\<close>

text \<open>
  The workspace state the handler touches: the forest and the import tables. The
  import tables, the parser and the file storage are external; the handler takes
  \<^verbatim>\<open>parser.parse\<close>, \<^verbatim>\<open>readFileSync\<close> (which may fail) and \<^verbatim>\<open>imports.updateImports\<close>
  as parameters.
\<close>

record 'i ElmWorkspace =
  w_forest :: Forest
  w_imports :: 'i

text \<open>
  A content change carries the new text and, for a ranged change, the range it replaces
  and the length of the text removed.
\<close>

record TextDocumentContentChangeEvent =
  ch_range :: "(Position \<times> Position) option"
  ch_rangeLength :: "nat option"
  ch_text :: string

record DidChangeTextDocumentParams =
  documentUri :: string
  contentChanges :: "TextDocumentContentChangeEvent list"

definition handleChangeTextDocument ::
  "(string \<Rightarrow> Tree) \<Rightarrow> (string \<Rightarrow> error + string) \<Rightarrow> (string \<Rightarrow> Tree \<Rightarrow> Forest \<Rightarrow> 'i \<Rightarrow> 'i)
     \<Rightarrow> DidChangeTextDocumentParams \<Rightarrow> 'i ElmWorkspace \<Rightarrow> error + 'i ElmWorkspace" where
  "handleChangeTextDocument parse readFileSync updateImports params elmWorkspace =
     (let forest = w_forest elmWorkspace;
          imports = w_imports elmWorkspace;
          document = documentUri params
      in (case (case getTree forest document of
                  Some t \<Rightarrow> Inr t
                | None \<Rightarrow>
                    (case readFileSync document of
                       Inl e \<Rightarrow> Inl e
                     | Inr fileContent \<Rightarrow> Inr (parse fileContent))) of
            Inl e \<Rightarrow> Inl e
          | Inr tree0 \<Rightarrow>
              let tree = fold (\<lambda>changeEvent t. parse (ch_text changeEvent))
                           (contentChanges params) tree0;
                  forest' = setTree forest document True True tree
              in Inr \<lparr>w_forest = forest',
                      w_imports = updateImports document tree forest' imports\<rparr>))"

section \<open>Example trees\<close>

definition tok :: "string \<Rightarrow> bool \<Rightarrow> string \<Rightarrow> nat \<Rightarrow> nat \<Rightarrow> Label" where
  "tok ty nm txt c0 c1 = Label ty nm None txt (0, c0) (0, c1)"

text \<open>\<^verbatim>\<open>module M exposing (foo, Bar)\<close>\<close>

definition explicitModule :: Syntax where
  "explicitModule =
     Syntax (Label ''module_declaration'' True (Some ''moduleDeclaration'')
               ''module M exposing (foo, Bar)'' (0, 0) (0, 28))
       [Syntax (tok ''module'' True ''module'' 0 6) [],
        Syntax (Label ''upper_case_qid'' True (Some ''name'') ''M'' (0, 7) (0, 8))
          [Syntax (tok ''upper_case_identifier'' True ''M'' 7 8) []],
        Syntax (Label ''exposing_list'' True (Some ''exposing'')
                  ''exposing (foo, Bar)'' (0, 9) (0, 28))
          [Syntax (tok ''exposing'' True ''exposing'' 9 17) [],
           Syntax (tok ''('' False ''('' 18 19) [],
           Syntax (tok ''exposed_value'' True ''foo'' 19 22)
             [Syntax (tok ''lower_case_identifier'' True ''foo'' 19 22) []],
           Syntax (tok '','' False '','' 22 23) [],
           Syntax (tok ''exposed_type'' True ''Bar'' 24 27)
             [Syntax (tok ''upper_case_identifier'' True ''Bar'' 24 27) []],
           Syntax (tok '')'' False '')'' 27 28) []]]"

definition explicitTree :: Tree where
  "explicitTree =
     Tree (SyntaxNode
       (Syntax (tok ''file'' True ''module M exposing (foo, Bar)'' 0 28) [explicitModule])
       [] ''file:///M.elm'')"

text \<open>\<^verbatim>\<open>module M exposing (..)\<close>\<close>

definition wildcardModule :: Syntax where
  "wildcardModule =
     Syntax (Label ''module_declaration'' True (Some ''moduleDeclaration'')
               ''module M exposing (..)'' (0, 0) (0, 22))
       [Syntax (tok ''module'' True ''module'' 0 6) [],
        Syntax (Label ''upper_case_qid'' True (Some ''name'') ''M'' (0, 7) (0, 8))
          [Syntax (tok ''upper_case_identifier'' True ''M'' 7 8) []],
        Syntax (Label ''exposing_list'' True (Some ''exposing'') ''exposing (..)'' (0, 9) (0, 22))
          [Syntax (tok ''exposing'' True ''exposing'' 9 17) [],
           Syntax (tok ''('' False ''('' 18 19) [],
           Syntax (tok ''double_dot'' True ''..'' 19 21) [],
           Syntax (tok '')'' False '')'' 21 22) []]]"

definition wildcardTree :: Tree where
  "wildcardTree =
     Tree (SyntaxNode
       (Syntax (tok ''file'' True ''module M exposing (..)'' 0 22) [wildcardModule])
       [] ''file:///M.elm'')"

text \<open>A file without a module declaration.\<close>

definition bareTree :: Tree where
  "bareTree = Tree (SyntaxNode (Syntax (tok ''file'' True [] 0 0) []) [] ''file:///M.elm'')"

text \<open>A field definition in a tree with a file identity, and one in a tree without.\<close>

definition fieldX :: Syntax where
  "fieldX = Syntax (tok ''field_type'' True ''x : Int'' 2 9) []"

definition placedRef :: SyntaxNode where
  "placedRef = SyntaxNode fieldX [] ''file:///Point.elm''"

definition strayRef :: SyntaxNode where
  "strayRef = SyntaxNode fieldX [] []"

text \<open>
  \<^verbatim>\<open>foo=1\<close>: a value declaration whose left-hand side is the identifier \<^verbatim>\<open>foo\<close> at
  columns 0 to 3, followed by the \<^verbatim>\<open>=\<close> token.
\<close>

definition fooFile :: SyntaxNode where
  "fooFile =
     SyntaxNode
       (Syntax (tok ''file'' True ''foo=1'' 0 5)
          [Syntax (tok ''value_declaration'' True ''foo=1'' 0 5)
             [Syntax (tok ''function_declaration_left'' True ''foo'' 0 3)
                [Syntax (tok ''lower_case_identifier'' True ''foo'' 0 3) []],
              Syntax (tok ''eq'' True ''='' 3 4) [],
              Syntax (tok ''number_constant_expr'' True ''1'' 4 5)
                [Syntax (tok ''number_literal'' True ''1'' 4 5) []]]])
       [] ''file:///Foo.elm''"

text \<open>
  The document \<^verbatim>\<open>  foo=1\<close>, the declaration after two blanks. The root node starts at
  the first token, so its text is \<^verbatim>\<open>foo=1\<close> and its span runs from column 2 to column 7.
\<close>

definition offsetDocument :: string where
  "offsetDocument = ''  foo=1''"

definition offsetFile :: SyntaxNode where
  "offsetFile =
     SyntaxNode
       (Syntax (tok ''file'' True ''foo=1'' 2 7)
          [Syntax (tok ''value_declaration'' True ''foo=1'' 2 7)
             [Syntax (tok ''function_declaration_left'' True ''foo'' 2 5)
                [Syntax (tok ''lower_case_identifier'' True ''foo'' 2 5) []],
              Syntax (tok ''eq'' True ''='' 5 6) [],
              Syntax (tok ''number_constant_expr'' True ''1'' 6 7)
                [Syntax (tok ''number_literal'' True ''1'' 6 7) []]]])
       [] ''file:///Foo.elm''"

definition offsetIdentifier :: SyntaxNode where
  "offsetIdentifier = hd (children (hd (children (hd (children offsetFile)))))"

definition at :: "nat \<Rightarrow> string \<Rightarrow> bool \<Rightarrow> string \<Rightarrow> nat \<Rightarrow> nat \<Rightarrow> Label" where
  "at row ty nm txt c0 c1 = Label ty nm None txt (row, c0) (row, c1)"

text \<open>
  Two lines: \<^verbatim>\<open>f : a -> Int -> String\<close> and \<^verbatim>\<open>f x y = 1\<close>. The annotation lists the
  argument types \<^verbatim>\<open>a\<close> and \<^verbatim>\<open>Int\<close> and the result type \<^verbatim>\<open>String\<close>; the declaration has the
  parameters \<^verbatim>\<open>x\<close> and \<^verbatim>\<open>y\<close>.
\<close>

definition fFile :: SyntaxNode where
  "fFile =
     SyntaxNode
       (Syntax (Label ''file'' True None ''f : a -> Int -> String\<newline>f x y = 1'' (0, 0) (1, 9))
          [Syntax (at 0 ''type_annotation'' True ''f : a -> Int -> String'' 0 22)
             [Syntax (at 0 ''lower_case_identifier'' True ''f'' 0 1) [],
              Syntax (at 0 ''colon'' True '':'' 2 3) [],
              Syntax (at 0 ''type_expression'' True ''a -> Int -> String'' 4 22)
                [Syntax (at 0 ''type_variable'' True ''a'' 4 5)
                   [Syntax (at 0 ''lower_case_identifier'' True ''a'' 4 5) []],
                 Syntax (at 0 ''arrow'' True ''->'' 6 8) [],
                 Syntax (at 0 ''type_ref'' True ''Int'' 9 12)
                   [Syntax (at 0 ''upper_case_qid'' True ''Int'' 9 12)
                      [Syntax (at 0 ''upper_case_identifier'' True ''Int'' 9 12) []]],
                 Syntax (at 0 ''arrow'' True ''->'' 13 15) [],
                 Syntax (at 0 ''type_ref'' True ''String'' 16 22)
                   [Syntax (at 0 ''upper_case_qid'' True ''String'' 16 22)
                      [Syntax (at 0 ''upper_case_identifier'' True ''String'' 16 22) []]]]],
           Syntax (at 1 ''value_declaration'' True ''f x y = 1'' 0 9)
             [Syntax (at 1 ''function_declaration_left'' True ''f x y'' 0 5)
                [Syntax (at 1 ''lower_case_identifier'' True ''f'' 0 1) [],
                 Syntax (at 1 ''lower_pattern'' True ''x'' 2 3)
                   [Syntax (at 1 ''lower_case_identifier'' True ''x'' 2 3) []],
                 Syntax (at 1 ''lower_pattern'' True ''y'' 4 5)
                   [Syntax (at 1 ''lower_case_identifier'' True ''y'' 4 5) []]],
              Syntax (at 1 ''eq'' True ''='' 6 7) [],
              Syntax (at 1 ''number_constant_expr'' True ''1'' 8 9)
                [Syntax (at 1 ''number_literal'' True ''1'' 8 9) []]]])
       [] ''file:///F.elm''"

definition fTypeExpression :: SyntaxNode where
  "fTypeExpression = children (children fFile ! 0) ! 2"

definition fTypeA :: SyntaxNode where
  "fTypeA = children fTypeExpression ! 0"

definition fTypeInt :: SyntaxNode where
  "fTypeInt = children fTypeExpression ! 2"

definition fTypeString :: SyntaxNode where
  "fTypeString = children fTypeExpression ! 4"

definition fLeft :: SyntaxNode where
  "fLeft = children (children fFile ! 1) ! 0"

definition fNameX :: SyntaxNode where
  "fNameX = children (children fLeft ! 1) ! 0"

definition fNameY :: SyntaxNode where
  "fNameY = children (children fLeft ! 2) ! 0"

text \<open>A parser, two file stores and an import table for the examples.\<close>

definition textParse :: "string \<Rightarrow> Tree" where
  "textParse src = Tree (SyntaxNode (Syntax (at 0 ''file'' True src 0 (length src)) []) [] [])"

definition emptyStore :: "string \<Rightarrow> error + string" where
  "emptyStore path = Inl IOError"

definition savedStore :: "string \<Rightarrow> error + string" where
  "savedStore path = Inr ''module M exposing (..)''"

definition countUpdates :: "string \<Rightarrow> Tree \<Rightarrow> Forest \<Rightarrow> nat \<Rightarrow> nat" where
  "countUpdates path t forest n = Suc n"

definition typedChange :: TextDocumentContentChangeEvent where
  "typedChange =
     \<lparr>ch_range = Some (\<lparr>line = 0, character = 8\<rparr>, \<lparr>line = 0, character = 8\<rparr>),
      ch_rangeLength = Some 0, ch_text = ''module M exposing (a)''\<rparr>"

definition wholeChange :: TextDocumentContentChangeEvent where
  "wholeChange = \<lparr>ch_range = None, ch_rangeLength = None, ch_text = ''module N''\<rparr>"

definition openForest :: Forest where
  "openForest =
     [''file:///M.elm'' \<mapsto>
        \<lparr>c_uri = ''file:///M.elm'', c_isOpen = False, c_writeable = False,
         c_tree = textParse ''module M''\<rparr>]"

text \<open>
  \<^verbatim>\<open>x = a.b.c.d.e\<close>: four nested field accesses around the value \<^verbatim>\<open>a\<close>, whose
  identifier lies eight links below the root; a checker that resolves nothing and a
  container for the file.
\<close>

definition chainFile :: SyntaxNode where
  "chainFile =
     SyntaxNode
       (Syntax (at 0 ''file'' True ''x = a.b.c.d.e'' 0 13)
          [Syntax (at 0 ''value_declaration'' True ''x = a.b.c.d.e'' 0 13)
             [Syntax (at 0 ''function_declaration_left'' True ''x'' 0 1)
                [Syntax (at 0 ''lower_case_identifier'' True ''x'' 0 1) []],
              Syntax (at 0 ''eq'' True ''='' 2 3) [],
              Syntax (at 0 ''field_access_expr'' True ''a.b.c.d.e'' 4 13)
                [Syntax (at 0 ''field_access_expr'' True ''a.b.c.d'' 4 11)
                   [Syntax (at 0 ''field_access_expr'' True ''a.b.c'' 4 9)
                      [Syntax (at 0 ''field_access_expr'' True ''a.b'' 4 7)
                         [Syntax (at 0 ''value_expr'' True ''a'' 4 5)
                            [Syntax (at 0 ''value_qid'' True ''a'' 4 5)
                               [Syntax (at 0 ''lower_case_identifier'' True ''a'' 4 5) []]],
                          Syntax (at 0 ''dot'' True ''.'' 5 6) [],
                          Syntax (at 0 ''lower_case_identifier'' True ''b'' 6 7) []],
                       Syntax (at 0 ''dot'' True ''.'' 7 8) [],
                       Syntax (at 0 ''lower_case_identifier'' True ''c'' 8 9) []],
                    Syntax (at 0 ''dot'' True ''.'' 9 10) [],
                    Syntax (at 0 ''lower_case_identifier'' True ''d'' 10 11) []],
                 Syntax (at 0 ''dot'' True ''.'' 11 12) [],
                 Syntax (at 0 ''lower_case_identifier'' True ''e'' 12 13) []]]])
       [] ''file:///Chain.elm''"

definition chainAccess :: SyntaxNode where
  "chainAccess = children (hd (children chainFile)) ! 2"

definition chainLeaf :: SyntaxNode where
  "chainLeaf =
     hd (children (hd (children (hd (children (hd (children (hd (children (hd (children chainAccess)))))))))))"

definition noDefinition :: Checker where
  "noDefinition n container = None"

definition chainContainer :: ITreeContainer where
  "chainContainer =
     \<lparr>c_uri = ''file:///Chain.elm'', c_isOpen = True, c_writeable = True,
      c_tree = Tree chainFile\<rparr>"

section \<open>The named leaves after a node\<close>

text \<open>
  The named leaves that come after a node's subtree: those below its later named
  siblings, then those that come after its parent's subtree.
\<close>

function following :: "SyntaxNode \<Rightarrow> SyntaxNode list" where
  "following n =
     concat (map namedLeaves (filter named (nextSiblings n))) @
     (case parent n of None \<Rightarrow> [] | Some p \<Rightarrow> following p)"
  by pat_completeness auto
termination
  by (relation "measure (\<lambda>n. length (crumbs n))") (auto simp: parent_depth)

declare following.simps [simp del]

text \<open>A list of nodes in which every node is followed by exactly the rest, then \<open>r\<close>.\<close>

fun chained :: "SyntaxNode list \<Rightarrow> SyntaxNode list \<Rightarrow> bool" where
  "chained [] r = True"
| "chained (x # xs) r = (following x = xs @ r \<and> chained xs r)"

section \<open>Exposing lists\<close>

lemmas example_defs =
  findModuleDeclaration_def childForFieldName_def findFirstNamedChildOfType_def
  children_def type_of_def tok_def

lemma wildcardTree_module:
  "\<exists>m el dd. findModuleDeclaration wildcardTree = Some m \<and>
     findFirstNamedChildOfType ''exposing_list'' m = Some el \<and>
     findFirstNamedChildOfType ''double_dot'' el = Some dd"
  by (simp add: example_defs wildcardTree_def wildcardModule_def)

lemma explicitTree_module:
  "\<exists>m el. findModuleDeclaration explicitTree = Some m \<and>
     findFirstNamedChildOfType ''exposing_list'' m = Some el \<and>
     findFirstNamedChildOfType ''double_dot'' el = None"
  by (simp add: example_defs explicitTree_def explicitModule_def)

lemma bareTree_module: "findModuleDeclaration bareTree = None"
  by (simp add: example_defs bareTree_def)

text \<open>
  C4. When the exposing list of the module declaration holds the wildcard marker,
  \<open>isExposedFunction\<close> and \<open>isExposedTypeOrTypeAlias\<close> answer true for every name; for a
  tree without a module declaration both answer false.
\<close>

theorem wildcard_exposes_every_name:
  "(findModuleDeclaration tree = Some m \<and>
    findFirstNamedChildOfType ''exposing_list'' m = Some el \<and>
    findFirstNamedChildOfType ''double_dot'' el = Some dd \<longrightarrow>
      isExposedFunction tree name \<and> isExposedTypeOrTypeAlias tree name) \<and>
   (findModuleDeclaration tree = None \<longrightarrow>
      \<not> isExposedFunction tree name \<and> \<not> isExposedTypeOrTypeAlias tree name)"
  by (simp add: isExposedFunction_def isExposedTypeOrTypeAlias_def hasDoubleDot_def)

theorem wildcard_exposes_every_name_witness:
  "(\<exists>m el dd. findModuleDeclaration wildcardTree = Some m \<and>
      findFirstNamedChildOfType ''exposing_list'' m = Some el \<and>
      findFirstNamedChildOfType ''double_dot'' el = Some dd) \<and>
   isExposedFunction wildcardTree ''update'' \<and>
   isExposedTypeOrTypeAlias wildcardTree ''Model'' \<and>
   findModuleDeclaration bareTree = None \<and>
   \<not> isExposedFunction bareTree ''update'' \<and>
   \<not> isExposedTypeOrTypeAlias bareTree ''Model''"
proof -
  obtain m el dd where h:
    "findModuleDeclaration wildcardTree = Some m"
    "findFirstNamedChildOfType ''exposing_list'' m = Some el"
    "findFirstNamedChildOfType ''double_dot'' el = Some dd"
    using wildcardTree_module by blast
  show ?thesis
    using wildcard_exposes_every_name [of wildcardTree m el dd "''update''"]
      wildcard_exposes_every_name [of wildcardTree m el dd "''Model''"]
      wildcard_exposes_every_name [of bareTree m el dd "''update''"]
      wildcard_exposes_every_name [of bareTree m el dd "''Model''"]
      h bareTree_module
    by blast
qed

text \<open>
  C5. For a module whose exposing list has no wildcard marker, \<open>isExposedFunction\<close> is
  true exactly when the text of some \<^verbatim>\<open>exposed_value\<close> entry equals the name, and
  \<open>isExposedTypeOrTypeAlias\<close> exactly when the text of some \<^verbatim>\<open>exposed_type\<close> entry starts
  with the name. For \<^verbatim>\<open>module M exposing (foo, Bar)\<close>: \<^verbatim>\<open>foo\<close> is exposed, \<^verbatim>\<open>baz\<close> is not,
  and the type \<^verbatim>\<open>Bar\<close> is exposed.
\<close>

theorem explicit_exposing_scans_entries:
  "(findModuleDeclaration tree = Some m \<and>
    findFirstNamedChildOfType ''exposing_list'' m = Some el \<and>
    findFirstNamedChildOfType ''double_dot'' el = None \<longrightarrow>
      (isExposedFunction tree name \<longleftrightarrow>
         (\<exists>d \<in> set (descendantsOfType m ''exposed_value''). text_of d = name)) \<and>
      (isExposedTypeOrTypeAlias tree name \<longleftrightarrow>
         (\<exists>d \<in> set (descendantsOfType m ''exposed_type''). startsWith (text_of d) name))) \<and>
   isExposedFunction explicitTree ''foo'' \<and>
   \<not> isExposedFunction explicitTree ''baz'' \<and>
   isExposedTypeOrTypeAlias explicitTree ''Bar''"
proof -
  have "isExposedFunction explicitTree ''foo''"
    by code_simp
  moreover have "\<not> isExposedFunction explicitTree ''baz''"
    by code_simp
  moreover have "isExposedTypeOrTypeAlias explicitTree ''Bar''"
    by code_simp
  ultimately show ?thesis
    by (simp add: isExposedFunction_def isExposedTypeOrTypeAlias_def hasDoubleDot_def
        list_ex_iff)
qed

theorem explicit_exposing_scans_entries_witness:
  "\<exists>m el. findModuleDeclaration explicitTree = Some m \<and>
     findFirstNamedChildOfType ''exposing_list'' m = Some el \<and>
     findFirstNamedChildOfType ''double_dot'' el = None \<and>
     (\<exists>d \<in> set (descendantsOfType m ''exposed_value''). text_of d = ''foo'') \<and>
     \<not> (\<exists>d \<in> set (descendantsOfType m ''exposed_value''). text_of d = ''baz'') \<and>
     (\<exists>d \<in> set (descendantsOfType m ''exposed_type''). startsWith (text_of d) ''Bar'')"
proof -
  obtain m el where h:
    "findModuleDeclaration explicitTree = Some m"
    "findFirstNamedChildOfType ''exposing_list'' m = Some el"
    "findFirstNamedChildOfType ''double_dot'' el = None"
    using explicitTree_module by blast
  show ?thesis
    using explicit_exposing_scans_entries [of explicitTree m el "''foo''"]
      explicit_exposing_scans_entries [of explicitTree m el "''baz''"]
      explicit_exposing_scans_entries [of explicitTree m el "''Bar''"] h
    by blast
qed

text \<open>
  C10. For a module-declaration node whose exposing list holds the wildcard marker,
  \<open>findExposedFunctionNode\<close> and \<open>findExposedTypeOrTypeAliasNode\<close> return nothing for
  every name, although \<open>isExposedFunction\<close> and \<open>isExposedTypeOrTypeAlias\<close> answer true
  for the same names on a tree with that module declaration.
\<close>

theorem wildcard_lookup_returns_nothing:
  "findFirstNamedChildOfType ''exposing_list'' m = Some el \<Longrightarrow>
   findFirstNamedChildOfType ''double_dot'' el = Some dd \<Longrightarrow>
     findExposedFunctionNode (Some m) name = None \<and>
     findExposedTypeOrTypeAliasNode (Some m) name = None \<and>
     (findModuleDeclaration tree = Some m \<longrightarrow>
        isExposedFunction tree name \<and> isExposedTypeOrTypeAlias tree name)"
  by (simp add: findExposedFunctionNode_def findExposedTypeOrTypeAliasNode_def
      isExposedFunction_def isExposedTypeOrTypeAlias_def hasDoubleDot_def)

theorem wildcard_lookup_returns_nothing_witness:
  "\<exists>m el dd. findModuleDeclaration wildcardTree = Some m \<and>
     findFirstNamedChildOfType ''exposing_list'' m = Some el \<and>
     findFirstNamedChildOfType ''double_dot'' el = Some dd \<and>
     findExposedFunctionNode (Some m) ''update'' = None \<and>
     findExposedTypeOrTypeAliasNode (Some m) ''update'' = None \<and>
     isExposedFunction wildcardTree ''update'' \<and>
     isExposedTypeOrTypeAlias wildcardTree ''update''"
proof -
  obtain m el dd where h:
    "findModuleDeclaration wildcardTree = Some m"
    "findFirstNamedChildOfType ''exposing_list'' m = Some el"
    "findFirstNamedChildOfType ''double_dot'' el = Some dd"
    using wildcardTree_module by blast
  show ?thesis
    using wildcard_lookup_returns_nothing [OF h(2) h(3), of "''update''" wildcardTree] h
    by blast
qed

section \<open>Field references\<close>

text \<open>
  C1, as stated: whenever the table holds a non-empty list for the field, the first
  reference comes back with kind \<open>FieldType\<close> and its file identity. It fails for a
  first reference whose tree has the empty file identity: the guard on \<^verbatim>\<open>refUri\<close> turns
  it into the empty result.
\<close>

theorem findFieldReference_empty_uri_counterexample:
  "fieldReferences_get [(''x'', [strayRef])] ''x'' = [strayRef] \<and>
   findFieldReference (TRecord [(''x'', [strayRef])]) ''x'' = None \<and>
   findFieldReference (TRecord [(''x'', [strayRef])]) ''x''
     \<noteq> Some \<lparr>dnode = strayRef, duri = treeUri strayRef, dnodeType = FieldType\<rparr>"
  by (simp add: findFieldReference_def fieldReferences_get_def strayRef_def)

text \<open>
  C1, amended. \<open>findFieldReference\<close> returns the empty result, and raises nothing, when
  the type is not a record, when the record's table has no entry for the field name,
  when the entry is the empty list, and when the first reference's tree has an empty
  file identity. When the entry is a non-empty list and the first reference's tree has
  a non-empty file identity, it returns that first reference with kind \<open>FieldType\<close>
  and that file identity.
\<close>

theorem findFieldReference_result:
  "findFieldReference (TOther tag) fieldName = None \<and>
   (map_of table fieldName = None \<longrightarrow> findFieldReference (TRecord table) fieldName = None) \<and>
   (map_of table fieldName = Some [] \<longrightarrow> findFieldReference (TRecord table) fieldName = None) \<and>
   (map_of table fieldName = Some (ref # refs) \<and> treeUri ref = [] \<longrightarrow>
      findFieldReference (TRecord table) fieldName = None) \<and>
   (map_of table fieldName = Some (ref # refs) \<and> treeUri ref \<noteq> [] \<longrightarrow>
      findFieldReference (TRecord table) fieldName =
        Some \<lparr>dnode = ref, duri = treeUri ref, dnodeType = FieldType\<rparr>)"
  by (simp add: findFieldReference_def fieldReferences_get_def)

theorem findFieldReference_result_witness:
  "map_of [(''x'', [placedRef, strayRef]), (''y'', []), (''z'', [strayRef])] ''w'' = None \<and>
   findFieldReference
     (TRecord [(''x'', [placedRef, strayRef]), (''y'', []), (''z'', [strayRef])]) ''w'' = None \<and>
   findFieldReference
     (TRecord [(''x'', [placedRef, strayRef]), (''y'', []), (''z'', [strayRef])]) ''y'' = None \<and>
   findFieldReference
     (TRecord [(''x'', [placedRef, strayRef]), (''y'', []), (''z'', [strayRef])]) ''z'' = None \<and>
   treeUri placedRef \<noteq> [] \<and>
   findFieldReference
     (TRecord [(''x'', [placedRef, strayRef]), (''y'', []), (''z'', [strayRef])]) ''x'' =
     Some \<lparr>dnode = placedRef, duri = ''file:///Point.elm'', dnodeType = FieldType\<rparr>"
  using findFieldReference_result
      [where table = "[(''x'', [placedRef, strayRef]), (''y'', []), (''z'', [strayRef])]" and fieldName = "''w''"]
    findFieldReference_result
      [where table = "[(''x'', [placedRef, strayRef]), (''y'', []), (''z'', [strayRef])]" and fieldName = "''y''"]
    findFieldReference_result
      [where table = "[(''x'', [placedRef, strayRef]), (''y'', []), (''z'', [strayRef])]" and fieldName = "''z''"
         and ref = strayRef and refs = "[]"]
    findFieldReference_result
      [where table = "[(''x'', [placedRef, strayRef]), (''y'', []), (''z'', [strayRef])]" and fieldName = "''x''"
         and ref = placedRef and refs = "[strayRef]"]
  by (simp add: placedRef_def strayRef_def)

section \<open>Position-to-node mapping\<close>

text \<open>
  C2. At a position whose line is past the last line of the node's text, the
  position-to-node mapping raises a fault: for the one-line text \<^verbatim>\<open>foo=1\<close> and line 1,
  \<^verbatim>\<open>split("\n")[1]\<close> is \<^verbatim>\<open>undefined\<close> and reading \<^verbatim>\<open>substring\<close> of it is a TypeError.
\<close>

theorem position_past_last_line_faults:
  "getNamedDescendantForPosition fooFile \<lparr>line = 1, character = 0\<rparr> = Inl TypeError"
  by (simp add: getNamedDescendantForPosition_def fooFile_def text_of_def tok_def)

text \<open>
  C3. The character that the mapping tests is taken from the node's text at the cursor's
  column, and the node's text begins at the node's first token, not at the start of the
  document. In the document \<^verbatim>\<open>  foo=1\<close> the cursor at column 2 has a blank before it;
  the mapping tests the \<^verbatim>\<open>o\<close> at index 1 of \<^verbatim>\<open>foo=1\<close>, makes the range lookup from
  column 1 to column 2 and returns the file root, where the point lookup at column 2
  gives the identifier \<^verbatim>\<open>foo\<close>.
\<close>

theorem cursor_after_blank_takes_range_lookup:
  "text_of offsetFile = drop 2 offsetDocument \<and>
   startPoint offsetFile = (0, 2) \<and>
   offsetDocument ! 1 = CHR '' '' \<and>
   isIdentChar (offsetDocument ! 1) = False \<and>
   getNamedDescendantForPosition offsetFile \<lparr>line = 0, character = 2\<rparr> =
     Inr (namedDescendantForPosition offsetFile (0, 1) (0, 2)) \<and>
   namedDescendantForPosition offsetFile (0, 1) (0, 2) = offsetFile \<and>
   namedDescendantForPosition offsetFile (0, 2) (0, 2) = offsetIdentifier \<and>
   text_of offsetIdentifier = ''foo'' \<and>
   type_of offsetIdentifier = ''lower_case_identifier''"
proof -
  have document: "text_of offsetFile = drop 2 offsetDocument" "startPoint offsetFile = (0, 2)"
    "offsetDocument ! 1 = CHR '' ''" "isIdentChar (offsetDocument ! 1) = False"
    by (simp_all add: offsetFile_def offsetDocument_def text_of_def startPoint_def tok_def
        isIdentChar_def)
  have mapped: "getNamedDescendantForPosition offsetFile \<lparr>line = 0, character = 2\<rparr> =
      Inr (namedDescendantForPosition offsetFile (0, 1) (0, 2))"
    by code_simp
  have range: "namedDescendantForPosition offsetFile (0, 1) (0, 2) = offsetFile"
    by code_simp
  have point: "namedDescendantForPosition offsetFile (0, 2) (0, 2) = offsetIdentifier"
    by code_simp
  have node: "text_of offsetIdentifier = ''foo''"
    "type_of offsetIdentifier = ''lower_case_identifier''"
    by code_simp+
  from document mapped range point node show ?thesis
    by simp
qed

section \<open>The type of a function parameter\<close>

text \<open>
  C7. For \<^verbatim>\<open>f : a -> Int -> String\<close> and \<^verbatim>\<open>f x y = 1\<close> every guard of
  \<open>getTypeOrTypeAliasOfFunctionParameter\<close> is met. The type variable \<^verbatim>\<open>a\<close> is no
  \<^verbatim>\<open>type_ref\<close> and is left out of the listed types, so the first parameter \<^verbatim>\<open>x\<close> gets
  \<^verbatim>\<open>Int\<close>, the type of the second, and the second parameter \<^verbatim>\<open>y\<close> gets \<^verbatim>\<open>String\<close>, the
  result type.
\<close>

theorem type_variable_shifts_parameter_types:
  "map text_of (children fLeft) = [''f'', ''x'', ''y''] \<and>
   map text_of (children fTypeExpression) = [''a'', ''->'', ''Int'', ''->'', ''String''] \<and>
   map type_of (children fTypeExpression) =
     [''type_variable'', ''arrow'', ''type_ref'', ''arrow'', ''type_ref''] \<and>
   findAllNamedChildrenOfType [''type_ref'', ''type_expression''] fTypeExpression =
     Some [fTypeInt, fTypeString] \<and>
   text_of fNameX = ''x'' \<and> text_of fNameY = ''y'' \<and>
   getTypeOrTypeAliasOfFunctionParameter (Some fNameX) = Some fTypeInt \<and>
   getTypeOrTypeAliasOfFunctionParameter (Some fNameY) = Some fTypeString \<and>
   text_of fTypeA = ''a'' \<and> text_of fTypeInt = ''Int'' \<and> text_of fTypeString = ''String''"
proof -
  have shape: "map text_of (children fLeft) = [''f'', ''x'', ''y'']"
    "map text_of (children fTypeExpression) = [''a'', ''->'', ''Int'', ''->'', ''String'']"
    "map type_of (children fTypeExpression) =
       [''type_variable'', ''arrow'', ''type_ref'', ''arrow'', ''type_ref'']"
    by code_simp+
  have listed: "findAllNamedChildrenOfType [''type_ref'', ''type_expression''] fTypeExpression =
      Some [fTypeInt, fTypeString]"
    by code_simp
  have names: "text_of fNameX = ''x''" "text_of fNameY = ''y''"
    "text_of fTypeA = ''a''" "text_of fTypeInt = ''Int''" "text_of fTypeString = ''String''"
    by code_simp+
  have x: "getTypeOrTypeAliasOfFunctionParameter (Some fNameX) = Some fTypeInt"
    by code_simp
  have y: "getTypeOrTypeAliasOfFunctionParameter (Some fNameY) = Some fTypeString"
    by code_simp
  from shape listed names x y show ?thesis
    by simp
qed

section \<open>Reparsing a changed file\<close>

lemma fold_parse:
  "fold (\<lambda>changeEvent t. parse (ch_text changeEvent)) changes t0 =
     (if changes = [] then t0 else parse (ch_text (last changes)))"
  by (induction changes arbitrary: t0) simp_all

text \<open>
  C6. The handler looks the file's tree up in the forest. With a tree there, storage
  is not consulted (the result is the same for every \<open>readFileSync\<close>); with none, the
  file text is read and parsed, and a failed read is passed on with nothing installed.
  Every content change is parsed from its whole text, with no tree handed to the parser,
  so the tree of the last change remains. That tree is installed as a fresh entry of
  the file identity, the other entries untouched, and the import tables are recomputed
  from the new forest.
\<close>

theorem reparse_replaces_forest_entry:
  "result = (if contentChanges params = [] then t
             else parse (ch_text (last (contentChanges params)))) \<Longrightarrow>
   forest' = (w_forest ws)(documentUri params \<mapsto>
       \<lparr>c_uri = documentUri params, c_isOpen = True, c_writeable = True, c_tree = result\<rparr>) \<Longrightarrow>
     (getTree (w_forest ws) (documentUri params) = Some t \<or>
      getTree (w_forest ws) (documentUri params) = None
        \<and> readFileSync (documentUri params) = Inr fileContent \<and> t = parse fileContent \<longrightarrow>
        handleChangeTextDocument parse readFileSync updateImports params ws =
          Inr \<lparr>w_forest = forest',
               w_imports = updateImports (documentUri params) result forest' (w_imports ws)\<rparr>) \<and>
     (getTree (w_forest ws) (documentUri params) = Some t \<longrightarrow>
        handleChangeTextDocument parse otherStore updateImports params ws =
        handleChangeTextDocument parse readFileSync updateImports params ws) \<and>
     (getTree (w_forest ws) (documentUri params) = None
        \<and> readFileSync (documentUri params) = Inl e \<longrightarrow>
        handleChangeTextDocument parse readFileSync updateImports params ws = Inl e) \<and>
     getTree forest' (documentUri params) = Some result \<and>
     (\<forall>other. other \<noteq> documentUri params \<longrightarrow> forest' other = w_forest ws other)"
  by (auto simp: handleChangeTextDocument_def Let_def setTree_def getTree_def fold_parse)

theorem reparse_replaces_forest_entry_witness:
  "getTree openForest ''file:///M.elm'' = Some (textParse ''module M'') \<and>
   handleChangeTextDocument textParse emptyStore countUpdates
     \<lparr>documentUri = ''file:///M.elm'', contentChanges = [typedChange, wholeChange]\<rparr>
     \<lparr>w_forest = openForest, w_imports = 0\<rparr> =
     Inr \<lparr>w_forest = openForest(''file:///M.elm'' \<mapsto>
              \<lparr>c_uri = ''file:///M.elm'', c_isOpen = True, c_writeable = True,
               c_tree = textParse ''module N''\<rparr>),
          w_imports = Suc 0\<rparr> \<and>
   getTree Map.empty ''file:///M.elm'' = None \<and>
   savedStore ''file:///M.elm'' = Inr ''module M exposing (..)'' \<and>
   handleChangeTextDocument textParse savedStore countUpdates
     \<lparr>documentUri = ''file:///M.elm'', contentChanges = []\<rparr>
     \<lparr>w_forest = Map.empty, w_imports = 0\<rparr> =
     Inr \<lparr>w_forest = [''file:///M.elm'' \<mapsto>
              \<lparr>c_uri = ''file:///M.elm'', c_isOpen = True, c_writeable = True,
               c_tree = textParse ''module M exposing (..)''\<rparr>],
          w_imports = Suc 0\<rparr> \<and>
   emptyStore ''file:///M.elm'' = Inl IOError \<and>
   handleChangeTextDocument textParse emptyStore countUpdates
     \<lparr>documentUri = ''file:///M.elm'', contentChanges = [wholeChange]\<rparr>
     \<lparr>w_forest = Map.empty, w_imports = 0\<rparr> = Inl IOError"
proof -
  have present: "getTree openForest ''file:///M.elm'' = Some (textParse ''module M'')"
    by (simp add: getTree_def openForest_def)
  have absent: "getTree Map.empty ''file:///M.elm'' = None"
    by (simp add: getTree_def)
  have saved: "savedStore ''file:///M.elm'' = Inr ''module M exposing (..)''"
    by (simp add: savedStore_def)
  have failed: "emptyStore ''file:///M.elm'' = Inl IOError"
    by (simp add: emptyStore_def)
  show ?thesis
    using reparse_replaces_forest_entry
      [where ws = "\<lparr>w_forest = openForest, w_imports = 0\<rparr>"
         and params = "\<lparr>documentUri = ''file:///M.elm'',
                         contentChanges = [typedChange, wholeChange]\<rparr>"
         and t = "textParse ''module M''" and parse = textParse
         and readFileSync = emptyStore and updateImports = countUpdates
         and otherStore = savedStore, OF refl refl]
      reparse_replaces_forest_entry
      [where ws = "\<lparr>w_forest = Map.empty, w_imports = 0\<rparr>"
         and params = "\<lparr>documentUri = ''file:///M.elm'', contentChanges = []\<rparr>"
         and t = "textParse ''module M exposing (..)''" and parse = textParse
         and readFileSync = savedStore and fileContent = "''module M exposing (..)''"
         and updateImports = countUpdates
         and otherStore = savedStore, OF refl refl]
      reparse_replaces_forest_entry
      [where ws = "\<lparr>w_forest = Map.empty, w_imports = 0\<rparr>"
         and params = "\<lparr>documentUri = ''file:///M.elm'', contentChanges = [wholeChange]\<rparr>"
         and parse = textParse and readFileSync = emptyStore and e = IOError
         and updateImports = countUpdates, OF refl refl]
      present absent saved failed
    by (simp add: countUpdates_def typedChange_def wholeChange_def)
qed

section \<open>The retry loop of the record-field resolution\<close>

lemma retryLoop_ascends:
  "retryLoop fd forest tc recordType node = Inr (final, node') \<Longrightarrow>
     \<exists>k. 2 * k \<le> depth node \<and> node' = (grandparent ^^ k) node \<and>
         (final \<noteq> None \<or> grandparent node' = None) \<and>
         (k = 0 \<longrightarrow> final = recordType) \<and>
         (0 < k \<longrightarrow> recordType = None \<and>
            getTypeAliasOfRecordField fd forest node' tc = Inr final) \<and>
         (\<forall>j. 0 < j \<and> j < k \<longrightarrow>
            getTypeAliasOfRecordField fd forest ((grandparent ^^ j) node) tc = Inr None)"
proof (induction "depth node" arbitrary: node recordType rule: less_induct)
  case less
  show ?case
  proof (cases "recordType = None \<and> grandparent node \<noteq> None")
    case False
    then have "retryLoop fd forest tc recordType node = Inr (recordType, node)"
      by (subst retryLoop.simps) auto
    with less.prems have "final = recordType" "node' = node"
      by simp_all
    with False have
      "2 * 0 \<le> depth node \<and> node' = (grandparent ^^ 0) node \<and>
         (final \<noteq> None \<or> grandparent node' = None) \<and>
         (0 = (0::nat) \<longrightarrow> final = recordType) \<and>
         ((0::nat) < 0 \<longrightarrow> recordType = None \<and>
            getTypeAliasOfRecordField fd forest node' tc = Inr final) \<and>
         (\<forall>j. 0 < j \<and> j < (0::nat) \<longrightarrow>
            getTypeAliasOfRecordField fd forest ((grandparent ^^ j) node) tc = Inr None)"
      by auto
    then show ?thesis
      by blast
  next
    case True
    then obtain g where g: "grandparent node = Some g" and none: "recordType = None"
      by auto
    from g have smaller: "depth (Some g) + 2 \<le> depth node"
      by (rule grandparent_depth)
    from less.prems True g obtain retried where
      retried: "getTypeAliasOfRecordField fd forest (Some g) tc = Inr retried" and
      rest: "retryLoop fd forest tc retried (Some g) = Inr (final, node')"
      by (subst (asm) retryLoop.simps) (auto split: sum.splits)
    from smaller have "depth (Some g) < depth node"
      by simp
    from less.hyps [OF this rest] obtain k where k:
      "2 * k \<le> depth (Some g)" "node' = (grandparent ^^ k) (Some g)"
      "final \<noteq> None \<or> grandparent node' = None"
      "k = 0 \<longrightarrow> final = retried"
      "0 < k \<longrightarrow> retried = None \<and> getTypeAliasOfRecordField fd forest node' tc = Inr final"
      "\<forall>j. 0 < j \<and> j < k \<longrightarrow>
         getTypeAliasOfRecordField fd forest ((grandparent ^^ j) (Some g)) tc = Inr None"
      by blast
    have shift: "(grandparent ^^ j) (Some g) = (grandparent ^^ Suc j) node" for j
      using g by (simp add: funpow_swap1)
    have bound: "2 * Suc k \<le> depth node"
      using k(1) smaller by simp
    have final_node: "node' = (grandparent ^^ Suc k) node"
      using k(2) shift by simp
    have last_call: "getTypeAliasOfRecordField fd forest node' tc = Inr final"
    proof (cases "k = 0")
      case True
      with k(2) k(4) retried show ?thesis by simp
    next
      case False
      with k(5) show ?thesis by simp
    qed
    have earlier:
      "getTypeAliasOfRecordField fd forest ((grandparent ^^ j) node) tc = Inr None"
      if "0 < j" "j < Suc k" for j
    proof (cases j)
      case 0
      with that show ?thesis by simp
    next
      case (Suc i)
      show ?thesis
      proof (cases "i = 0")
        case True
        from that Suc True have "0 < k" by simp
        with k(5) retried have "getTypeAliasOfRecordField fd forest (Some g) tc = Inr None"
          by simp
        with Suc True g show ?thesis by simp
      next
        case False
        with that Suc have "0 < i \<and> i < k" by simp
        with k(6) have
          "getTypeAliasOfRecordField fd forest ((grandparent ^^ i) (Some g)) tc = Inr None"
          by blast
        with Suc shift show ?thesis by simp
      qed
    qed
    have
      "2 * Suc k \<le> depth node \<and> node' = (grandparent ^^ Suc k) node \<and>
         (final \<noteq> None \<or> grandparent node' = None) \<and>
         (Suc k = 0 \<longrightarrow> final = recordType) \<and>
         (0 < Suc k \<longrightarrow> recordType = None \<and>
            getTypeAliasOfRecordField fd forest node' tc = Inr final) \<and>
         (\<forall>j. 0 < j \<and> j < Suc k \<longrightarrow>
            getTypeAliasOfRecordField fd forest ((grandparent ^^ j) node) tc = Inr None)"
      using bound final_node k(3) none last_call earlier by simp
    then show ?thesis
      by blast
  qed
qed

lemma retries_retryLoop_bound:
  "retries_retryLoop fd forest tc recordType node < 2 ^ (depth node div 2)"
proof (induction "depth node" arbitrary: node recordType rule: less_induct)
  case less
  show ?case
  proof (cases "recordType = None \<and> grandparent node \<noteq> None")
    case False
    then have "retries_retryLoop fd forest tc recordType node = 0"
      by (subst retries_retryLoop.simps) auto
    then show ?thesis
      by simp
  next
    case True
    then obtain g where g: "grandparent node = Some g"
      by auto
    from g have smaller: "depth (Some g) + 2 \<le> depth node"
      by (rule grandparent_depth)
    then have lower: "depth (Some g) < depth node"
      by simp
    let ?half = "2 ^ (depth (Some g) div 2) :: nat"
    have loops: "retries_retryLoop fd forest tc rt (Some g) < ?half" for rt
      using less.hyps [OF lower] .
    have call: "retries_getTypeAliasOfRecordField fd forest (Some g) tc < ?half"
      by (subst retries_getTypeAliasOfRecordField.simps) (simp add: loops split: sum.split)
    have after:
      "(case getTypeAliasOfRecordField fd forest (Some g) tc of
          Inl e \<Rightarrow> 0
        | Inr retried \<Rightarrow> retries_retryLoop fd forest tc retried (Some g)) < ?half"
      by (simp add: loops split: sum.split)
    have "retries_retryLoop fd forest tc recordType node =
        1 + retries_getTypeAliasOfRecordField fd forest (Some g) tc
          + (case getTypeAliasOfRecordField fd forest (Some g) tc of
               Inl e \<Rightarrow> 0
             | Inr retried \<Rightarrow> retries_retryLoop fd forest tc retried (Some g))"
      using True g by (subst retries_retryLoop.simps) (simp cong: sum.case_cong)
    with call after have "retries_retryLoop fd forest tc recordType node < 2 * ?half"
      by simp
    also have "2 * ?half = 2 ^ Suc (depth (Some g) div 2)"
      by simp
    also have "\<dots> \<le> 2 ^ (depth node div 2)"
    proof (rule power_increasing)
      show "Suc (depth (Some g) div 2) \<le> depth node div 2"
        using smaller by simp
      show "(1::nat) \<le> 2"
        by simp
    qed
    finally show ?thesis .
  qed
qed

lemma retries_getTypeAliasOfRecordField_bound:
  "retries_getTypeAliasOfRecordField fd forest node tc < 2 ^ (depth node div 2)"
  by (subst retries_getTypeAliasOfRecordField.simps)
     (simp add: retries_retryLoop_bound split: sum.split)

lemma chain_runs:
  "getTypeAliasOfRecord noDefinition Map.empty (Some chainLeaf) chainContainer = Inr None"
  "retryLoop noDefinition Map.empty chainContainer None (Some chainLeaf) =
     Inr (None, Some chainFile)"
  "depth (Some chainLeaf) = 8"
  "(grandparent ^^ 4) (Some chainLeaf) = Some chainFile"
  "getTypeAliasOfRecordField noDefinition Map.empty (Some chainLeaf) chainContainer = Inr None"
  by code_simp+

text \<open>
  C8, as stated: the number of retries is bounded by the depth of the tree. It fails on
  \<^verbatim>\<open>x = a.b.c.d.e\<close> with a checker that resolves nothing: the tree is eight links deep,
  the identifier \<^verbatim>\<open>a\<close> lies at depth eight, and the call at that identifier makes
  fifteen retries, as every retry is a call that runs a loop of its own.
\<close>

theorem retries_exceed_depth_counterexample:
  "treeDepth (focus chainFile) = 8 \<and>
   depth (Some chainLeaf) = 8 \<and>
   text_of chainLeaf = ''a'' \<and>
   getTypeAliasOfRecordField noDefinition Map.empty (Some chainLeaf) chainContainer = Inr None \<and>
   retries_getTypeAliasOfRecordField noDefinition Map.empty (Some chainLeaf) chainContainer = 15"
proof -
  have "treeDepth (focus chainFile) = 8"
    by code_simp
  moreover have "depth (Some chainLeaf) = 8"
    by code_simp
  moreover have "text_of chainLeaf = ''a''"
    by code_simp
  moreover have
    "getTypeAliasOfRecordField noDefinition Map.empty (Some chainLeaf) chainContainer = Inr None"
    by code_simp
  moreover have
    "retries_getTypeAliasOfRecordField noDefinition Map.empty (Some chainLeaf) chainContainer = 15"
    by code_simp
  ultimately show ?thesis
    by simp
qed

text \<open>
  C8, amended. \<open>getTypeAliasOfRecordField\<close> and its loop are defined by recursion on the
  depth of the node, so a call returns for every tree: with a fault raised by a helper,
  or with the field's type alias in what the loop found. In the second case the loop
  of the call has made \<open>k\<close> retries, each a call of \<open>getTypeAliasOfRecordField\<close> at the
  parent's parent of the node before, with \<open>2 * k\<close> at most the depth of the node; every
  retry before the last failed, and the loop stopped because a record type was found
  or because the node reached has no parent's parent. As every retry runs a loop of
  its own, the retries of a whole call number less than two to the power of half the
  depth of the node, which is not a bound by the depth.
\<close>

theorem retries_below_power_of_half_depth:
  "((\<exists>e. getTypeAliasOfRecordField fd forest node tc = Inl e) \<or>
    (\<exists>recordType final node' k.
       getTypeAliasOfRecord fd forest node tc = Inr recordType \<and>
       retryLoop fd forest tc recordType node = Inr (final, node') \<and>
       getTypeAliasOfRecordField fd forest node tc =
         Inr (fieldTypeAlias fd forest
                (case node of None \<Rightarrow> None | Some n \<Rightarrow>
                   (case parent n of None \<Rightarrow> None | Some p \<Rightarrow>
                      map_option text_of (firstNamedChild p)))
                final) \<and>
       2 * k \<le> depth node \<and> node' = (grandparent ^^ k) node \<and>
       (final \<noteq> None \<or> grandparent node' = None) \<and>
       (k = 0 \<longrightarrow> final = recordType) \<and>
       (0 < k \<longrightarrow> recordType = None \<and>
          getTypeAliasOfRecordField fd forest node' tc = Inr final) \<and>
       (\<forall>j. 0 < j \<and> j < k \<longrightarrow>
          getTypeAliasOfRecordField fd forest ((grandparent ^^ j) node) tc = Inr None))) \<and>
   retries_getTypeAliasOfRecordField fd forest node tc < 2 ^ (depth node div 2)"
proof -
  have run:
    "(\<exists>e. getTypeAliasOfRecordField fd forest node tc = Inl e) \<or>
     (\<exists>recordType final node' k.
       getTypeAliasOfRecord fd forest node tc = Inr recordType \<and>
       retryLoop fd forest tc recordType node = Inr (final, node') \<and>
       getTypeAliasOfRecordField fd forest node tc =
         Inr (fieldTypeAlias fd forest
                (case node of None \<Rightarrow> None | Some n \<Rightarrow>
                   (case parent n of None \<Rightarrow> None | Some p \<Rightarrow>
                      map_option text_of (firstNamedChild p)))
                final) \<and>
       2 * k \<le> depth node \<and> node' = (grandparent ^^ k) node \<and>
       (final \<noteq> None \<or> grandparent node' = None) \<and>
       (k = 0 \<longrightarrow> final = recordType) \<and>
       (0 < k \<longrightarrow> recordType = None \<and>
          getTypeAliasOfRecordField fd forest node' tc = Inr final) \<and>
       (\<forall>j. 0 < j \<and> j < k \<longrightarrow>
          getTypeAliasOfRecordField fd forest ((grandparent ^^ j) node) tc = Inr None))"
  proof (cases "getTypeAliasOfRecord fd forest node tc")
    case (Inl e)
    then have "getTypeAliasOfRecordField fd forest node tc = Inl e"
      by (subst getTypeAliasOfRecordField.simps) simp
    then show ?thesis
      by blast
  next
    case first: (Inr recordType)
    show ?thesis
    proof (cases "retryLoop fd forest tc recordType node")
      case (Inl e)
      with first have "getTypeAliasOfRecordField fd forest node tc = Inl e"
        by (subst getTypeAliasOfRecordField.simps) simp
      then show ?thesis
        by blast
    next
      case (Inr state)
      obtain final node' where state: "state = (final, node')"
        by (cases state)
      with Inr have loop: "retryLoop fd forest tc recordType node = Inr (final, node')"
        by simp
      have "getTypeAliasOfRecordField fd forest node tc =
          Inr (fieldTypeAlias fd forest
                 (case node of None \<Rightarrow> None | Some n \<Rightarrow>
                    (case parent n of None \<Rightarrow> None | Some p \<Rightarrow>
                       map_option text_of (firstNamedChild p)))
                 final)"
        by (subst getTypeAliasOfRecordField.simps) (simp add: first loop)
      with retryLoop_ascends [OF loop] first loop show ?thesis
        by blast
    qed
  qed
  with retries_getTypeAliasOfRecordField_bound [of fd forest node tc] show ?thesis
    by blast
qed

theorem retries_below_power_of_half_depth_witness:
  "getTypeAliasOfRecordField noDefinition Map.empty (Some chainLeaf) chainContainer = Inr None \<and>
   retryLoop noDefinition Map.empty chainContainer None (Some chainLeaf) =
     Inr (None, Some chainFile) \<and>
   (\<exists>k. 2 * k \<le> depth (Some chainLeaf) \<and>
        Some chainFile = (grandparent ^^ k) (Some chainLeaf)) \<and>
   grandparent (Some chainFile) = None \<and>
   depth (Some chainLeaf) div 2 = 4 \<and>
   retries_getTypeAliasOfRecordField noDefinition Map.empty (Some chainLeaf) chainContainer
     < 2 ^ 4"
proof -
  have top: "grandparent (Some chainFile) = None"
    by (simp add: grandparent_def chainFile_def)
  have half: "depth (Some chainLeaf) div 2 = 4"
    by (simp add: chain_runs(3))
  have bound:
    "retries_getTypeAliasOfRecordField noDefinition Map.empty (Some chainLeaf) chainContainer
       < 2 ^ 4"
    using retries_below_power_of_half_depth [of noDefinition Map.empty "Some chainLeaf" chainContainer]
    by (simp only: half)
  have "\<exists>k. 2 * k \<le> depth (Some chainLeaf) \<and>
        Some chainFile = (grandparent ^^ k) (Some chainLeaf)"
    using retries_below_power_of_half_depth [of noDefinition Map.empty "Some chainLeaf" chainContainer]
      chain_runs
    by auto
  with chain_runs top half bound show ?thesis
    by simp
qed

section \<open>Successor traversal\<close>

lemma chained_append: "chained xs (ys @ r) \<Longrightarrow> chained ys r \<Longrightarrow> chained (xs @ ys) r"
  by (induction xs) simp_all

lemma chained_following_shorter:
  "chained xs r \<Longrightarrow> y \<in> set xs \<Longrightarrow> length (following y) < length xs + length r"
  by (induction xs) auto

lemma chained_distinct: "chained xs r \<Longrightarrow> distinct xs"
proof (induction xs)
  case Nil
  then show ?case by simp
next
  case (Cons x xs)
  then have here: "length (following x) = length xs + length r" and rest: "chained xs r"
    by simp_all
  have "x \<notin> set xs"
  proof
    assume "x \<in> set xs"
    from chained_following_shorter [OF rest this] here show False
      by simp
  qed
  with Cons.IH rest show ?case
    by simp
qed

lemma namedLeaves_nonempty: "namedLeaves n \<noteq> []"
proof (induction n rule: namedLeaves.induct)
  case (1 n)
  show ?case
  proof (cases "namedChildren n")
    case Nil
    then show ?thesis
      by (subst namedLeaves.simps) simp
  next
    case (Cons c cs)
    with 1 have "namedLeaves c \<noteq> []"
      by simp
    with Cons show ?thesis
      by (subst namedLeaves.simps) simp
  qed
qed

lemma moveDown_first_leaf: "moveDown n = hd (namedLeaves n)"
proof (induction n rule: namedLeaves.induct)
  case (1 n)
  show ?case
  proof (cases "namedChildren n")
    case Nil
    then have "moveDown n = n"
      by (subst moveDown.simps) (simp add: firstNamedChild_def)
    with Nil show ?thesis
      by (subst namedLeaves.simps) simp
  next
    case (Cons c cs)
    then have "moveDown n = moveDown c"
      by (subst moveDown.simps) (simp add: firstNamedChild_def)
    also have "\<dots> = hd (namedLeaves c)"
      using 1 Cons by simp
    finally show ?thesis
      using Cons namedLeaves_nonempty [of c]
      by (subst namedLeaves.simps) simp
  qed
qed

lemma find_filter_head: "find P xs = Some s \<Longrightarrow> \<exists>ys. filter P xs = s # ys"
  by (induction xs) (auto split: if_splits)

lemma find_filter_none: "find P xs = None \<Longrightarrow> filter P xs = []"
  by (induction xs) (auto split: if_splits)

lemma nextNode_parent:
  "nextNamedSibling x = None \<Longrightarrow> parent x = Some p \<Longrightarrow> nextNode x = nextNode p"
proof -
  assume "nextNamedSibling x = None" "parent x = Some p"
  then have "moveUp x = moveUp p"
    by (subst moveUp.simps) simp
  then show ?thesis
    by (simp add: nextNode_def)
qed

lemma nextNode_first_following:
  "nextNode x = (case following x of [] \<Rightarrow> None | y # ys \<Rightarrow> Some y)"
proof (induction x rule: following.induct)
  case (1 x)
  show ?case
  proof (cases "nextNamedSibling x")
    case (Some s)
    then have up: "moveUp x = x"
      by (subst moveUp.simps) simp
    from Some obtain ys where "filter named (nextSiblings x) = s # ys"
      unfolding nextNamedSibling_def by (blast dest: find_filter_head)
    then have "following x = namedLeaves s @
        concat (map namedLeaves ys) @ (case parent x of None \<Rightarrow> [] | Some p \<Rightarrow> following p)"
      by (subst following.simps) simp
    moreover obtain l ls where "namedLeaves s = l # ls"
      using namedLeaves_nonempty [of s] by (cases "namedLeaves s") auto
    ultimately have "(case following x of [] \<Rightarrow> None | y # ys \<Rightarrow> Some y)
        = Some (hd (namedLeaves s))"
      by simp
    with Some up show ?thesis
      by (simp add: nextNode_def moveDown_first_leaf)
  next
    case None
    then have empty: "filter named (nextSiblings x) = []"
      unfolding nextNamedSibling_def by (rule find_filter_none)
    show ?thesis
    proof (cases "parent x")
      case no_parent: None
      with None have "moveUp x = x"
        by (subst moveUp.simps) simp
      with None have "nextNode x = None"
        by (simp add: nextNode_def)
      moreover have "following x = []"
        using empty no_parent by (subst following.simps) simp
      ultimately show ?thesis
        by simp
    next
      case (Some p)
      with None have "nextNode x = nextNode p"
        by (rule nextNode_parent)
      moreover have "following x = following p"
        using empty Some by (subst following.simps) simp
      ultimately show ?thesis
        using 1 [OF Some] by simp
    qed
  qed
qed

lemma following_child:
  "following (SyntaxNode t (Crumb l ls rs # cs) u) =
     concat (map namedLeaves (filter named (zipChildren l cs u (t # ls) rs))) @
     following (SyntaxNode (Syntax l (rev ls @ t # rs)) cs u)"
  by (subst following.simps) simp

lemma chained_children:
  "(\<And>c. c \<in> set (zipChildren l cs u ls rs) \<Longrightarrow> named c \<Longrightarrow>
       chained (namedLeaves c) (following c)) \<Longrightarrow>
   chained (concat (map namedLeaves (filter named (zipChildren l cs u ls rs))))
     (following (SyntaxNode (Syntax l (rev ls @ rs)) cs u))"
proof (induction rs arbitrary: ls)
  case Nil
  then show ?case by simp
next
  case (Cons t rs)
  let ?c = "SyntaxNode t (Crumb l ls rs # cs) u"
  let ?rest = "concat (map namedLeaves (filter named (zipChildren l cs u (t # ls) rs)))"
  let ?n = "SyntaxNode (Syntax l (rev ls @ t # rs)) cs u"
  have rest: "chained ?rest (following ?n)"
    using Cons.IH [of "t # ls"] Cons.prems by simp
  show ?case
  proof (cases "named ?c")
    case False
    with rest show ?thesis by simp
  next
    case True
    have "chained (namedLeaves ?c) (following ?c)"
      using Cons.prems [of ?c] True by simp
    then have "chained (namedLeaves ?c) (?rest @ following ?n)"
      by (simp add: following_child)
    from chained_append [OF this rest] True show ?thesis
      by simp
  qed
qed

lemma chained_namedLeaves: "chained (namedLeaves n) (following n)"
proof (induction n rule: namedLeaves.induct)
  case (1 n)
  show ?case
  proof (cases "namedChildren n = []")
    case True
    then show ?thesis
      by (subst namedLeaves.simps) simp
  next
    case False
    obtain l ts cs u where n: "n = SyntaxNode (Syntax l ts) cs u"
      by (cases n, cases "focus n") auto
    have "chained (concat (map namedLeaves (filter named (zipChildren l cs u [] ts))))
        (following (SyntaxNode (Syntax l (rev [] @ ts)) cs u))"
    proof (rule chained_children)
      fix c assume "c \<in> set (zipChildren l cs u [] ts)" "named c"
      then have "c \<in> set (namedChildren n)"
        by (simp add: n namedChildren_def children_def)
      with 1 False show "chained (namedLeaves c) (following c)"
        by simp
    qed
    then have "chained (concat (map namedLeaves (namedChildren n))) (following n)"
      by (simp add: n namedChildren_def children_def)
    with False show ?thesis
      by (subst namedLeaves.simps) simp
  qed
qed

lemma successors_chained:
  "chained (x # xs) [] \<Longrightarrow> length xs < k \<Longrightarrow> successors k x = Some (x # xs)"
proof (induction xs arbitrary: x k)
  case Nil
  then obtain k' where "k = Suc k'"
    by (cases k) auto
  moreover from Nil have "nextNode x = None"
    by (simp add: nextNode_first_following)
  ultimately show ?case
    by simp
next
  case (Cons y ys)
  then obtain k' where k: "k = Suc k'" "length ys < k'"
    by (cases k) auto
  from Cons.prems have "nextNode x = Some y" "chained (y # ys) []"
    by (simp_all add: nextNode_first_following)
  with Cons.IH [OF this(2) k(2)] k show ?case
    by simp
qed

text \<open>
  C9, as stated: the traversal from the first leaf visits every leaf. It fails on
  \<^verbatim>\<open>module M exposing (..)\<close>: the leaves are the six tokens, and the traversal from the
  first of them ends after four nodes, having skipped the two parentheses, which are
  anonymous tokens.
\<close>

theorem successor_traversal_skips_tokens_counterexample:
  "map text_of (leaves (rootNode wildcardTree)) =
     [''module'', ''M'', ''exposing'', ''('', ''..'', '')''] \<and>
   map_option (map text_of) (successors 6 (hd (leaves (rootNode wildcardTree)))) =
     Some [''module'', ''M'', ''exposing'', ''..''] \<and>
   successors 6 (hd (leaves (rootNode wildcardTree))) \<noteq> Some (leaves (rootNode wildcardTree))"
proof -
  have a: "map text_of (leaves (rootNode wildcardTree)) =
     [''module'', ''M'', ''exposing'', ''('', ''..'', '')'']"
    by code_simp
  have b: "map_option (map text_of) (successors 6 (hd (leaves (rootNode wildcardTree)))) =
     Some [''module'', ''M'', ''exposing'', ''..'']"
    by code_simp
  have "successors 6 (hd (leaves (rootNode wildcardTree))) \<noteq> Some (leaves (rootNode wildcardTree))"
  proof
    assume "successors 6 (hd (leaves (rootNode wildcardTree))) = Some (leaves (rootNode wildcardTree))"
    with b have "map text_of (leaves (rootNode wildcardTree)) =
        [''module'', ''M'', ''exposing'', ''..'']"
      by simp
    with a show False
      by simp
  qed
  with a b show ?thesis
    by blast
qed

text \<open>
  C9, amended. From the first named leaf of a file, the node that first-named-child
  links reach from the root, repeated \<open>nextNode\<close> visits the named leaves of the tree,
  the nodes without named children that named-child links reach from the root, each
  exactly once and in document order, and yields no further node after the last: any
  number of steps above the number of those leaves completes the walk. Each step climbs
  to the nearest node with a next named sibling and descends that sibling's chain of
  first named children.
\<close>

theorem successor_traversal_visits_named_leaves:
  "crumbs root = [] \<Longrightarrow> length (namedLeaves root) \<le> steps \<Longrightarrow>
     successors steps (moveDown root) = Some (namedLeaves root) \<and>
     distinct (namedLeaves root) \<and>
     nextNode (last (namedLeaves root)) = None \<and>
     nextNode node =
       (case nextNamedSibling (moveUp node) of
          None \<Rightarrow> None
        | Some sibling \<Rightarrow> Some (moveDown sibling))"
proof -
  assume top: "crumbs root = []" and enough: "length (namedLeaves root) \<le> steps"
  have "parent root = None" "nextSiblings root = []"
    using top by (cases root; simp)+
  then have "following root = []"
    by (subst following.simps) simp
  with chained_namedLeaves [of root] have chain: "chained (namedLeaves root) []"
    by simp
  obtain x xs where leaves: "namedLeaves root = x # xs"
    using namedLeaves_nonempty [of root] by (cases "namedLeaves root") auto
  have walk: "successors steps (moveDown root) = Some (namedLeaves root)"
    using chain enough successors_chained [of x xs steps]
    by (simp add: moveDown_first_leaf leaves)
  have once: "distinct (namedLeaves root)"
    using chain by (rule chained_distinct)
  have last_stops: "chained ys [] \<Longrightarrow> ys \<noteq> [] \<Longrightarrow> nextNode (last ys) = None" for ys
    by (induction ys) (auto simp: nextNode_first_following)
  have stop: "nextNode (last (namedLeaves root)) = None"
    using chain namedLeaves_nonempty [of root] by (rule last_stops)
  from walk once stop show ?thesis
    by (simp add: nextNode_def)
qed

theorem successor_traversal_visits_named_leaves_witness:
  "crumbs (rootNode wildcardTree) = [] \<and>
   length (namedLeaves (rootNode wildcardTree)) \<le> 4 \<and>
   map text_of (namedLeaves (rootNode wildcardTree)) = [''module'', ''M'', ''exposing'', ''..''] \<and>
   successors 4 (moveDown (rootNode wildcardTree)) = Some (namedLeaves (rootNode wildcardTree)) \<and>
   distinct (namedLeaves (rootNode wildcardTree)) \<and>
   nextNode (last (namedLeaves (rootNode wildcardTree))) = None"
proof -
  have top: "crumbs (rootNode wildcardTree) = []"
    by (simp add: wildcardTree_def)
  have texts: "map text_of (namedLeaves (rootNode wildcardTree)) =
      [''module'', ''M'', ''exposing'', ''..'']"
    by code_simp
  then have "length (map text_of (namedLeaves (rootNode wildcardTree))) = 4"
    by simp
  then have enough: "length (namedLeaves (rootNode wildcardTree)) \<le> 4"
    by simp
  from successor_traversal_visits_named_leaves [OF top enough, of "rootNode wildcardTree"]
    top enough texts
  show ?thesis
    by blast
qed

end
